theory Spec2Isabelle
  imports Main "HOL-Library.Word" "HOL-Library.Signed_Division" "HOL-Library.AList" "HOL-Library.Multiset"
begin

section \<open>The stats pipe of LogsQL: a shallow embedding\<close>

text \<open>
  The development follows \<^verbatim>\<open>pipe_stats.go\<close> (found among the sources as
  \<^verbatim>\<open>src/lib/protoparser/opentelemetry/firehose/parser.go\<close>, second document) and
  \<^verbatim>\<open>src/lib/logstorage/stats_row_any.go\<close>. Go strings and byte slices are byte
  sequences: both are \<^typ>\<open>string\<close> here, one \<^typ>\<open>char\<close> per byte. Go's \<^verbatim>\<open>int\<close>
  and \<^verbatim>\<open>int64\<close> are 64-bit words read in two's complement.
\<close>

type_synonym int64 = "64 word"

subsection \<open>Panics and errors\<close>

text \<open>
  A Go panic (an index out of range, a \<^verbatim>\<open>nil\<close> pointer dereference, or
  \<^verbatim>\<open>logger.Panicf\<close>) is a value of \<open>panic\<close>.
  An \<^verbatim>\<open>error\<close> built by \<^verbatim>\<open>fmt.Errorf\<close> keeps its format string and its arguments in
  order: \<open>ArgS\<close> for \<^verbatim>\<open>%s\<close>, \<open>ArgQ\<close> for \<^verbatim>\<open>%q\<close>, \<open>ArgD\<close> for \<^verbatim>\<open>%d\<close> and
  \<open>ArgW\<close> for a wrapped error (\<^verbatim>\<open>%w\<close>).
\<close>

datatype panic = IndexOutOfRange | NilDereference | PanicBUG string

datatype error = Errorf string "fmt_arg list"
  and fmt_arg = ArgS string | ArgQ string | ArgD int | ArgW error

subsection \<open>The key codec: \<^verbatim>\<open>encoding.MarshalBytes\<close> and \<^verbatim>\<open>encoding.UnmarshalBytes\<close>\<close>

text \<open>
  Modelled from the spec: package \<^verbatim>\<open>lib/encoding\<close> is not among the sources at hand. The
  specification (section 4.1) says that \<^verbatim>\<open>marshalBytes(b)\<close> writes a varint-length prefix
  followed by the raw bytes, and that decoding reads length-prefixed fragments.
  The varint is the usual little-endian base-128 one: seven bits per byte, the high bit
  set on every byte but the last.
\<close>

fun MarshalVarUint64 :: "nat \<Rightarrow> string" where
  "MarshalVarUint64 u =
     (if u < 128 then [char_of u]
      else char_of (u mod 128 + 128) # MarshalVarUint64 (u div 128))"

declare MarshalVarUint64.simps [simp del]

text \<open>
  Modelled from the spec: the decoder of the varint. It returns the value and the number
  of bytes read; \<open>None\<close> stands for the non-positive size the Go function returns when
  the buffer ends inside the varint.
\<close>

fun UnmarshalVarUint64 :: "string \<Rightarrow> (nat \<times> nat) option" where
  "UnmarshalVarUint64 [] = None"
| "UnmarshalVarUint64 (c # cs) =
     (if (of_char c :: nat) < 128 then Some (of_char c, 1)
      else (case UnmarshalVarUint64 cs of
              None \<Rightarrow> None
            | Some (u, nSize) \<Rightarrow> Some ((of_char c - 128) + 128 * u, nSize + 1)))"

text \<open>
  Modelled from the spec: \<^verbatim>\<open>MarshalBytes(dst, b)\<close> appends the length of \<open>b\<close> and then
  \<open>b\<close> to \<open>dst\<close>.
\<close>

definition MarshalBytes :: "string \<Rightarrow> string \<Rightarrow> string" where
  "MarshalBytes dst b = dst @ MarshalVarUint64 (length b) @ b"

text \<open>
  Modelled from the spec: \<^verbatim>\<open>UnmarshalBytes(src)\<close> returns the first length-prefixed
  fragment of \<open>src\<close> and the number \<open>nSize\<close> of bytes it occupies; \<open>nSize = 0\<close> (with an
  empty fragment) reports a buffer that holds no complete fragment.
\<close>

definition UnmarshalBytes :: "string \<Rightarrow> string \<times> nat" where
  "UnmarshalBytes src =
     (case UnmarshalVarUint64 src of
        None \<Rightarrow> ([], 0)
      | Some (n, nSize) \<Rightarrow>
          if nSize + n > length src then ([], 0)
          else (take n (drop nSize src), nSize + n))"

subsection \<open>Blocks of rows\<close>

text \<open>
  The type \<^verbatim>\<open>blockResult\<close> and its columns are declared outside the sources at hand. A block
  is a value of the type variable \<open>'br\<close>, a column one of \<open>'col\<close>, and the methods the
  code calls on them are the fields of \<open>block_ops\<close>. \<open>rowsLen\<close> is \<^verbatim>\<open>br.rowsLen\<close>, written
  \<^verbatim>\<open>len(br.timestamps)\<close> in \<^verbatim>\<open>pipe_stats.go\<close>.
\<close>

record ('br, 'col, 'bf) block_ops =
  rowsLen :: "'br \<Rightarrow> nat"
  getColumns :: "'br \<Rightarrow> 'col list"
  getColumnByName :: "'br \<Rightarrow> string \<Rightarrow> 'col"
  colName :: "'col \<Rightarrow> string"
  isConst :: "'col \<Rightarrow> bool"
  valuesEncoded :: "'col \<Rightarrow> string list"
  getValueAtRow :: "'col \<Rightarrow> 'br \<Rightarrow> nat \<Rightarrow> string"
  getBucketedValue :: "'br \<Rightarrow> string \<Rightarrow> 'bf \<Rightarrow> string"
  getValuesBucketed :: "'col \<Rightarrow> 'br \<Rightarrow> 'bf \<Rightarrow> string list"

subsection \<open>The \<^verbatim>\<open>row_any\<close> aggregator (\<^verbatim>\<open>stats_row_any.go\<close>)\<close>

record statsRowAny =
  sa_fields :: "string list"

record Field =
  Name :: string
  Value :: string

record statsRowAnyProcessor =
  sa :: statsRowAny
  captured :: bool
  sap_fields :: "Field list"

text \<open>
  The two loops of \<^verbatim>\<open>updateState\<close> have the same body; \<open>appendFields\<close> is that body run
  over the columns \<open>cs\<close>, on the pair of the field list and \<^verbatim>\<open>stateSizeIncrease\<close>.
\<close>

fun appendFields ::
  "('br, 'col, 'bf) block_ops \<Rightarrow> 'br \<Rightarrow> nat \<Rightarrow> 'col list \<Rightarrow> Field list \<times> int64 \<Rightarrow> Field list \<times> int64"
where
  "appendFields B br rowIdx [] acc = acc"
| "appendFields B br rowIdx (c # cs) (fs, stateSizeIncrease) =
     (let v = getValueAtRow B c br rowIdx
      in appendFields B br rowIdx cs
           (fs @ [\<lparr>Name = colName B c, Value = v\<rparr>],
            stateSizeIncrease + (of_nat (length (colName B c)) + of_nat (length v))))"

definition updateState ::
  "('br, 'col, 'bf) block_ops \<Rightarrow> statsRowAnyProcessor \<Rightarrow> 'br \<Rightarrow> nat \<Rightarrow> statsRowAnyProcessor \<times> int64"
where
  "updateState B sap br rowIdx =
     (let fetchFields = sa_fields (sa sap);
          cs = (if length fetchFields = 0 then getColumns B br
                else map (getColumnByName B br) fetchFields);
          (fs, stateSizeIncrease) = appendFields B br rowIdx cs (sap_fields sap, 0)
      in (sap\<lparr>sap_fields := fs\<rparr>, stateSizeIncrease))"

definition row_any_updateStatsForAllRows ::
  "('br, 'col, 'bf) block_ops \<Rightarrow> statsRowAnyProcessor \<Rightarrow> 'br \<Rightarrow> statsRowAnyProcessor \<times> int64"
where
  "row_any_updateStatsForAllRows B sap br =
     (if rowsLen B br = 0 then (sap, 0)
      else if captured sap then (sap, 0)
      else updateState B (sap\<lparr>captured := True\<rparr>) br 0)"

definition row_any_updateStatsForRow ::
  "('br, 'col, 'bf) block_ops \<Rightarrow> statsRowAnyProcessor \<Rightarrow> 'br \<Rightarrow> nat \<Rightarrow> statsRowAnyProcessor \<times> int64"
where
  "row_any_updateStatsForRow B sap br rowIdx =
     (if captured sap then (sap, 0)
      else updateState B (sap\<lparr>captured := True\<rparr>) br rowIdx)"

text \<open>
  \<^verbatim>\<open>mergeState\<close> changes the receiver \<open>sap\<close> and leaves \<open>src\<close> alone; the model returns
  the receiver after the call.
\<close>

definition row_any_mergeState :: "statsRowAnyProcessor \<Rightarrow> statsRowAnyProcessor \<Rightarrow> statsRowAnyProcessor" where
  "row_any_mergeState sap src =
     (if \<not> captured sap then sap\<lparr>captured := captured src, sap_fields := sap_fields src\<rparr>
      else sap)"

text \<open>
  \<^verbatim>\<open>MarshalFieldsToJSON\<close> is declared outside the sources at hand; \<open>finalizeStats\<close> takes it as
  the parameter \<open>toJSON\<close> (the rendering of a field list appended to an empty \<^verbatim>\<open>dst\<close>).
\<close>

definition row_any_finalizeStats :: "(Field list \<Rightarrow> string) \<Rightarrow> statsRowAnyProcessor \<Rightarrow> string" where
  "row_any_finalizeStats toJSON sap = toJSON (sap_fields sap)"

text \<open>
  Modelled from the spec: the rendering of \<^verbatim>\<open>row_any\<close> is "one arbitrary row as
  \<^verbatim>\<open>{field: value}\<close> JSON" (section 4.4). \<open>fieldsToJSON\<close> writes the fields in order, each
  name and value between double quotes; it is used where a concrete rendering is needed.
\<close>

fun fieldsToJSON_items :: "Field list \<Rightarrow> string" where
  "fieldsToJSON_items [] = []"
| "fieldsToJSON_items [f] = [CHR 0x22] @ Name f @ [CHR 0x22] @ '':'' @ [CHR 0x22] @ Value f @ [CHR 0x22]"
| "fieldsToJSON_items (f # fs) =
     [CHR 0x22] @ Name f @ [CHR 0x22] @ '':'' @ [CHR 0x22] @ Value f @ [CHR 0x22] @ '','' @ fieldsToJSON_items fs"

definition fieldsToJSON :: "Field list \<Rightarrow> string" where
  "fieldsToJSON fs = ''{'' @ fieldsToJSON_items fs @ ''}''"

subsection \<open>The plan: \<^verbatim>\<open>pipeStats\<close>\<close>

text \<open>
  \<^verbatim>\<open>float64\<close> values are never computed with here; they are values of the type variable
  \<open>'f\<close>, whose \<open>0\<close> is the zero value of a Go struct field. A stats function
  (\<^verbatim>\<open>statsFunc\<close>) is a value of \<open>'sf\<close>, a filter one of \<open>'flt\<close>; the \<^verbatim>\<open>nil\<close> filter is
  \<open>None\<close>. The field \<^verbatim>\<open>f\<close> of \<^verbatim>\<open>pipeStatsFunc\<close> is called \<open>sfunc\<close>.
\<close>

record 'f byStatsField =
  name :: string
  bucketSizeStr :: string
  bucketSize :: 'f
  bucketOffsetStr :: string
  bucketOffset :: 'f

record ('sf, 'flt) pipeStatsFunc =
  sfunc :: 'sf
  neededFieldsForFunc :: "string list"
  iff :: "'flt option"
  resultName :: string

record ('f, 'sf, 'flt) pipeStats =
  byFields :: "'f byStatsField list"
  funcs :: "('sf, 'flt) pipeStatsFunc list"

subsection \<open>What the processor calls: aggregators, filters, blocks\<close>

text \<open>
  The interfaces \<^verbatim>\<open>statsFunc\<close>, \<^verbatim>\<open>statsProcessor\<close> and \<^verbatim>\<open>filter\<close> are implemented outside
  \<^verbatim>\<open>pipe_stats.go\<close>, and so are \<^verbatim>\<open>blockResult\<close>, \<^verbatim>\<open>bitmap\<close> and \<^verbatim>\<open>quoteTokenIfNeeded\<close>.
  Their methods are the fields of \<open>stats_env\<close>; the state of an aggregator instance is a
  value of \<open>'sp\<close>, and a method that changes its receiver returns the new state.
  A bitmap is the list of its bits. \<open>resetBlock\<close> is a \<^verbatim>\<open>blockResult\<close> after \<^verbatim>\<open>reset()\<close>;
  \<open>initFromFilterNeededColumns\<close> is the block that the method of that name leaves in
  its receiver.
\<close>

record ('f, 'sf, 'sp, 'flt, 'br, 'col) stats_env =
  blk :: "('br, 'col, 'f byStatsField) block_ops"
  newStatsProcessor :: "'sf \<Rightarrow> 'sp \<times> int64"
  updateStatsForAllRows :: "'sp \<Rightarrow> 'br \<Rightarrow> 'sp \<times> int64"
  updateStatsForRow :: "'sp \<Rightarrow> 'br \<Rightarrow> nat \<Rightarrow> 'sp \<times> int64"
  mergeState :: "'sp \<Rightarrow> 'sp \<Rightarrow> 'sp"
  finalizeStats :: "'sp \<Rightarrow> string"
  sfString :: "'sf \<Rightarrow> string"
  filterString :: "'flt \<Rightarrow> string"
  applyToBlockResult :: "'flt \<Rightarrow> 'br \<Rightarrow> bool list \<Rightarrow> bool list"
  resetBlock :: "'br"
  initFromFilterNeededColumns :: "'br \<Rightarrow> bool list \<Rightarrow> string list \<Rightarrow> 'br"
  quoteTokenIfNeeded :: "string \<Rightarrow> string"

definition areAllBitsSet :: "bool list \<Rightarrow> bool" where
  "areAllBitsSet bm = list_all (\<lambda>b. b) bm"

definition isZero :: "bool list \<Rightarrow> bool" where
  "isZero bm = list_all (\<lambda>b. \<not> b) bm"

subsection \<open>Rendering the plan: \<^verbatim>\<open>String()\<close>\<close>

fun join :: "string list \<Rightarrow> string \<Rightarrow> string" where
  "join [] sep = []"
| "join [a] sep = a"
| "join (a # as) sep = a @ sep @ join as sep"

definition byStatsField_String ::
  "('f, 'sf, 'sp, 'flt, 'br, 'col) stats_env \<Rightarrow> 'f byStatsField \<Rightarrow> string"
where
  "byStatsField_String E bf =
     (let s = quoteTokenIfNeeded E (name bf)
      in if bucketSizeStr bf \<noteq> [] then
           (let s1 = s @ '':'' @ bucketSizeStr bf
            in if bucketOffsetStr bf \<noteq> [] then s1 @ '' offset '' @ bucketOffsetStr bf else s1)
         else s)"

definition pipeStatsFunc_line ::
  "('f, 'sf, 'sp, 'flt, 'br, 'col) stats_env \<Rightarrow> ('sf, 'flt) pipeStatsFunc \<Rightarrow> string"
where
  "pipeStatsFunc_line E fn =
     (let line = sfString E (sfunc fn);
          line1 = (case iff fn of None \<Rightarrow> line
                   | Some flt \<Rightarrow> line @ '' if ('' @ filterString E flt @ '')'')
      in line1 @ '' as '' @ quoteTokenIfNeeded E (resultName fn))"

definition pipeStats_String ::
  "('f, 'sf, 'sp, 'flt, 'br, 'col) stats_env \<Rightarrow> ('f, 'sf, 'flt) pipeStats \<Rightarrow> panic + string"
where
  "pipeStats_String E ps =
     (let s = ''stats '';
          s1 = (if length (byFields ps) > 0
                then s @ ''by ('' @ join (map (byStatsField_String E) (byFields ps)) '', '' @ '') ''
                else s)
      in if length (funcs ps) = 0
         then Inl (PanicBUG ''BUG: pipeStats must contain at least a single statsFunc'')
         else Inr (s1 @ join (map (pipeStatsFunc_line E) (funcs ps)) '', ''))"

subsection \<open>Shards\<close>

text \<open>
  A shard's map \<^verbatim>\<open>m\<close> is the association list \<open>shard_m\<close>, in insertion order. The
  scratch slices \<^verbatim>\<open>bms\<close>, \<^verbatim>\<open>brs\<close> and \<^verbatim>\<open>brsBuf\<close> are written in full by
  \<^verbatim>\<open>applyPerFunctionFilters\<close> before they are read, so they are local values here.
  \<^verbatim>\<open>shard.ps\<close> is the plan of the processor, passed as the argument \<open>ps\<close>.
\<close>

record 'sp pipeStatsGroup =
  sfps :: "'sp list"

record 'sp pipeStatsProcessorShard =
  shard_m :: "(string \<times> 'sp pipeStatsGroup) list"
  columnValues :: "string list list"
  keyBuf :: string
  stateSizeBudget :: int64

definition stateSizeBudgetChunk :: int64 where
  "stateSizeBudgetChunk = 2 ^ 20"

definition applyPerFunctionFilters ::
  "('f, 'sf, 'sp, 'flt, 'br, 'col) stats_env \<Rightarrow> ('f, 'sf, 'flt) pipeStats \<Rightarrow> 'br \<Rightarrow> 'br list"
where
  "applyPerFunctionFilters E ps brSrc =
     map (\<lambda>fn. case iff fn of
                 None \<Rightarrow> brSrc
               | Some flt \<Rightarrow>
                   (let bm = applyToBlockResult E flt brSrc (replicate (rowsLen (blk E) brSrc) True)
                    in if areAllBitsSet bm then brSrc
                       else if isZero bm then resetBlock E
                       else initFromFilterNeededColumns E brSrc bm (neededFieldsForFunc fn)))
         (funcs ps)"

text \<open>
  The loop of \<^verbatim>\<open>getPipeStatsGroup\<close> that creates one aggregator instance per function
  and charges its size to the shard's budget.
\<close>

fun newStatsProcessors ::
  "('f, 'sf, 'sp, 'flt, 'br, 'col) stats_env \<Rightarrow> ('sf, 'flt) pipeStatsFunc list \<Rightarrow> 'sp list \<times> int64 \<Rightarrow> 'sp list \<times> int64"
where
  "newStatsProcessors E [] acc = acc"
| "newStatsProcessors E (fn # fns) (sps, budget) =
     (let (sfp, stateSize) = newStatsProcessor E (sfunc fn)
      in newStatsProcessors E fns (sps @ [sfp], budget - stateSize))"

text \<open>
  \<^verbatim>\<open>getPipeStatsGroup\<close> returns a pointer to the group stored under \<open>key\<close>; the model
  returns the shard, in which the group is then found under \<open>key\<close>. The sizes of a
  string header, a pointer and an interface value are 16, 8 and 16 bytes.
\<close>

definition getPipeStatsGroup ::
  "('f, 'sf, 'sp, 'flt, 'br, 'col) stats_env \<Rightarrow> ('f, 'sf, 'flt) pipeStats \<Rightarrow>
   'sp pipeStatsProcessorShard \<Rightarrow> string \<Rightarrow> 'sp pipeStatsProcessorShard"
where
  "getPipeStatsGroup E ps shard key =
     (case map_of (shard_m shard) key of
        Some psg \<Rightarrow> shard
      | None \<Rightarrow>
          (let (sps, budget) = newStatsProcessors E (funcs ps) ([], stateSizeBudget shard);
               psg = \<lparr>sfps = sps\<rparr>
           in shard\<lparr>shard_m := AList.update key psg (shard_m shard),
                    stateSizeBudget :=
                      budget - (of_nat (length key) + (16 + 8 + 16 * of_nat (length sps)))\<rparr>))"

fun psg_updateStatsForAllRows ::
  "('f, 'sf, 'sp, 'flt, 'br, 'col) stats_env \<Rightarrow> 'sp list \<Rightarrow> 'br list \<Rightarrow> panic + ('sp list \<times> int64)"
where
  "psg_updateStatsForAllRows E [] brs = Inr ([], 0)"
| "psg_updateStatsForAllRows E (sfp # rest) [] = Inl IndexOutOfRange"
| "psg_updateStatsForAllRows E (sfp # rest) (br # brs) =
     (let (sfp', n) = updateStatsForAllRows E sfp br
      in case psg_updateStatsForAllRows E rest brs of
           Inl p \<Rightarrow> Inl p
         | Inr (rest', n') \<Rightarrow> Inr (sfp' # rest', n + n'))"

fun psg_updateStatsForRow ::
  "('f, 'sf, 'sp, 'flt, 'br, 'col) stats_env \<Rightarrow> 'sp list \<Rightarrow> 'br list \<Rightarrow> nat \<Rightarrow> panic + ('sp list \<times> int64)"
where
  "psg_updateStatsForRow E [] brs rowIdx = Inr ([], 0)"
| "psg_updateStatsForRow E (sfp # rest) [] rowIdx = Inl IndexOutOfRange"
| "psg_updateStatsForRow E (sfp # rest) (br # brs) rowIdx =
     (let (sfp', n) = updateStatsForRow E sfp br rowIdx
      in case psg_updateStatsForRow E rest brs rowIdx of
           Inl p \<Rightarrow> Inl p
         | Inr (rest', n') \<Rightarrow> Inr (sfp' # rest', n + n'))"

text \<open>
  \<^verbatim>\<open>shard.stateSizeBudget -= psg.updateStatsForAllRows(brs)\<close>, where \<^verbatim>\<open>psg\<close> points to the
  group stored under \<open>key\<close>; a \<^verbatim>\<open>nil\<close> pointer panics.
\<close>

definition updateGroupForAllRows ::
  "('f, 'sf, 'sp, 'flt, 'br, 'col) stats_env \<Rightarrow> 'sp pipeStatsProcessorShard \<Rightarrow> string \<Rightarrow> 'br list \<Rightarrow>
   panic + 'sp pipeStatsProcessorShard"
where
  "updateGroupForAllRows E shard key brs =
     (case map_of (shard_m shard) key of
        None \<Rightarrow> Inl NilDereference
      | Some psg \<Rightarrow>
          (case psg_updateStatsForAllRows E (sfps psg) brs of
             Inl p \<Rightarrow> Inl p
           | Inr (sps, n) \<Rightarrow>
               Inr (shard\<lparr>shard_m := AList.update key (psg\<lparr>sfps := sps\<rparr>) (shard_m shard),
                          stateSizeBudget := stateSizeBudget shard - n\<rparr>)))"

definition updateGroupForRow ::
  "('f, 'sf, 'sp, 'flt, 'br, 'col) stats_env \<Rightarrow> 'sp pipeStatsProcessorShard \<Rightarrow> string \<Rightarrow> 'br list \<Rightarrow> nat \<Rightarrow>
   panic + 'sp pipeStatsProcessorShard"
where
  "updateGroupForRow E shard key brs rowIdx =
     (case map_of (shard_m shard) key of
        None \<Rightarrow> Inl NilDereference
      | Some psg \<Rightarrow>
          (case psg_updateStatsForRow E (sfps psg) brs rowIdx of
             Inl p \<Rightarrow> Inl p
           | Inr (sps, n) \<Rightarrow>
               Inr (shard\<lparr>shard_m := AList.update key (psg\<lparr>sfps := sps\<rparr>) (shard_m shard),
                          stateSizeBudget := stateSizeBudget shard - n\<rparr>)))"

fun areConstValues :: "string list \<Rightarrow> bool" where
  "areConstValues [] = False"
| "areConstValues (v # vs) = list_all (\<lambda>x. v = x) vs"

text \<open>
  The row loop of the single by-field path. \<open>kbuf\<close> is the loop's local buffer; the
  pointer \<^verbatim>\<open>psg\<close> always points to the group stored under the current \<open>kbuf\<close>, since both
  are assigned together. Reading \<^verbatim>\<open>values[i]\<close> past the end of \<open>values\<close> panics.
\<close>

fun writeBlock_rows1 ::
  "('f, 'sf, 'sp, 'flt, 'br, 'col) stats_env \<Rightarrow> ('f, 'sf, 'flt) pipeStats \<Rightarrow> 'br list \<Rightarrow> string list \<Rightarrow>
   nat list \<Rightarrow> 'sp pipeStatsProcessorShard \<times> string \<Rightarrow> panic + ('sp pipeStatsProcessorShard \<times> string)"
where
  "writeBlock_rows1 E ps brs values [] acc = Inr acc"
| "writeBlock_rows1 E ps brs values (i # is) (shard, kbuf) =
     (if i \<ge> length values then Inl IndexOutOfRange
      else
        (let (shard1, kbuf1) =
               (if i \<le> 0 \<or> values ! (i - 1) \<noteq> values ! i
                then (let kb = MarshalBytes [] (values ! i) in (getPipeStatsGroup E ps shard kb, kb))
                else (shard, kbuf))
         in case updateGroupForRow E shard1 kbuf1 brs i of
              Inl p \<Rightarrow> Inl p
            | Inr shard2 \<Rightarrow> writeBlock_rows1 E ps brs values is (shard2, kbuf1)))"

text \<open>
  The inner loop of the multi-column path that compares row \<open>i\<close> with row \<open>i - 1\<close>,
  column by column, and leaves at the first difference.
\<close>

fun sameValue_loop :: "string list list \<Rightarrow> nat \<Rightarrow> panic + bool" where
  "sameValue_loop [] i = Inr (i > 0)"
| "sameValue_loop (values # rest) i =
     (if i \<le> 0 then Inr False
      else if i \<ge> length values then Inl IndexOutOfRange
      else if values ! (i - 1) \<noteq> values ! i then Inr False
      else sameValue_loop rest i)"

text \<open>The loop that appends \<^verbatim>\<open>MarshalBytes(keyBuf, values[i])\<close> for every column.\<close>

fun marshalRow :: "string list list \<Rightarrow> nat \<Rightarrow> string \<Rightarrow> panic + string" where
  "marshalRow [] i kbuf = Inr kbuf"
| "marshalRow (values # rest) i kbuf =
     (if i \<ge> length values then Inl IndexOutOfRange
      else marshalRow rest i (MarshalBytes kbuf (values ! i)))"

fun writeBlock_rowsN ::
  "('f, 'sf, 'sp, 'flt, 'br, 'col) stats_env \<Rightarrow> ('f, 'sf, 'flt) pipeStats \<Rightarrow> 'br list \<Rightarrow> string list list \<Rightarrow>
   nat list \<Rightarrow> 'sp pipeStatsProcessorShard \<times> string \<Rightarrow> panic + ('sp pipeStatsProcessorShard \<times> string)"
where
  "writeBlock_rowsN E ps brs cvs [] acc = Inr acc"
| "writeBlock_rowsN E ps brs cvs (i # is) (shard, kbuf) =
     (case sameValue_loop cvs i of
        Inl p \<Rightarrow> Inl p
      | Inr sameValue \<Rightarrow>
          (case (if \<not> sameValue
                 then (case marshalRow cvs i [] of
                         Inl p \<Rightarrow> Inl p
                       | Inr kb \<Rightarrow> Inr (getPipeStatsGroup E ps shard kb, kb))
                 else Inr (shard, kbuf)) of
             Inl p \<Rightarrow> Inl p
           | Inr (shard1, kbuf1) \<Rightarrow>
               (case updateGroupForRow E shard1 kbuf1 brs i of
                  Inl p \<Rightarrow> Inl p
                | Inr shard2 \<Rightarrow> writeBlock_rowsN E ps brs cvs is (shard2, kbuf1))))"

definition shard_writeBlock ::
  "('f, 'sf, 'sp, 'flt, 'br, 'col) stats_env \<Rightarrow> ('f, 'sf, 'flt) pipeStats \<Rightarrow>
   'sp pipeStatsProcessorShard \<Rightarrow> 'br \<Rightarrow> panic + 'sp pipeStatsProcessorShard"
where
  "shard_writeBlock E ps shard br =
     (let brs = applyPerFunctionFilters E ps br
      in case byFields ps of
           [] \<Rightarrow> updateGroupForAllRows E (getPipeStatsGroup E ps shard []) [] brs
         | [bf] \<Rightarrow>
             (let c = getColumnByName (blk E) br (name bf)
              in if isConst (blk E) c then
                   (case valuesEncoded (blk E) c of
                      [] \<Rightarrow> Inl IndexOutOfRange
                    | v0 # _ \<Rightarrow>
                        (let v = getBucketedValue (blk E) br v0 bf;
                             kb = MarshalBytes [] v
                         in updateGroupForAllRows E
                              (getPipeStatsGroup E ps (shard\<lparr>keyBuf := kb\<rparr>) kb) kb brs))
                 else
                   (let values = getValuesBucketed (blk E) c br bf
                    in if areConstValues values then
                         (case values of
                            [] \<Rightarrow> Inl IndexOutOfRange
                          | v0 # _ \<Rightarrow>
                              (let kb = MarshalBytes [] v0
                               in updateGroupForAllRows E
                                    (getPipeStatsGroup E ps (shard\<lparr>keyBuf := kb\<rparr>) kb) kb brs))
                       else
                         (case writeBlock_rows1 E ps brs values [0 ..< rowsLen (blk E) br] (shard, []) of
                            Inl p \<Rightarrow> Inl p
                          | Inr (shard1, kb) \<Rightarrow> Inr (shard1\<lparr>keyBuf := kb\<rparr>))))
         | _ \<Rightarrow>
             (let cvs = map (\<lambda>bf. getValuesBucketed (blk E) (getColumnByName (blk E) br (name bf)) br bf)
                            (byFields ps);
                  shard0 = shard\<lparr>columnValues := cvs\<rparr>
              in if list_all areConstValues cvs then
                   (case marshalRow cvs 0 [] of
                      Inl p \<Rightarrow> Inl p
                    | Inr kb \<Rightarrow>
                        (case updateGroupForAllRows E (getPipeStatsGroup E ps shard0 kb) kb brs of
                           Inl p \<Rightarrow> Inl p
                         | Inr shard1 \<Rightarrow> Inr (shard1\<lparr>keyBuf := kb\<rparr>)))
                 else
                   (case writeBlock_rowsN E ps brs cvs [0 ..< rowsLen (blk E) br] (shard0, []) of
                      Inl p \<Rightarrow> Inl p
                    | Inr (shard1, kb) \<Rightarrow> Inr (shard1\<lparr>keyBuf := kb\<rparr>))))"

subsection \<open>The processor and its memory budget\<close>

text \<open>
  The atomic counter \<^verbatim>\<open>psp.stateSizeBudget\<close> is the field \<open>globalBudget\<close>; every call
  of \<^verbatim>\<open>psp.cancel()\<close> adds one to \<open>cancelCalls\<close>. One call of \<^verbatim>\<open>writeBlock\<close> is one step
  of the processor's state: the calls run one after the other here. In the code the
  \<^verbatim>\<open>Add\<close> operations of concurrent calls can interleave; each pass of the loop then acts
  on the value the counter has at that moment, as a single pass does here.
\<close>

record ('f, 'sf, 'flt, 'sp) pipeStatsProcessor =
  psp_ps :: "('f, 'sf, 'flt) pipeStats"
  shards :: "'sp pipeStatsProcessorShard list"
  maxStateSize :: int64
  globalBudget :: int64
  cancelCalls :: nat

text \<open>
  The loop at the head of \<^verbatim>\<open>writeBlock\<close>, on the shard's budget and the global one.
  \<open>Proceed\<close> is the normal exit of the loop; \<open>Dropped\<close> is the \<^verbatim>\<open>return\<close> inside it, with
  the flag telling whether \<^verbatim>\<open>cancel()\<close> was called.
\<close>

datatype budget_outcome = Proceed int64 int64 | Dropped int64 int64 bool

function budgetLoop :: "int64 \<Rightarrow> int64 \<Rightarrow> budget_outcome" where
  "budgetLoop localB globalB =
     (if localB <s 0 then
        (let remaining = globalB + (- stateSizeBudgetChunk)
         in if remaining <s 0
            then Dropped localB remaining (0 \<le>s remaining + stateSizeBudgetChunk)
            else budgetLoop (localB + stateSizeBudgetChunk) remaining)
      else Proceed localB globalB)"
  by pat_completeness auto
termination
proof (relation "measure (\<lambda>(l, g). nat (- sint l))")
  show "wf (measure (\<lambda>(l :: int64, g :: int64). nat (- sint l)))"
    by simp
next
  fix localB globalB remaining :: int64
  assume "localB <s 0"
  then have neg: "sint localB < 0"
    by (simp add: word_sless_alt)
  have lo: "- (2 ^ 63) \<le> sint localB"
    using sint_ge [of localB] by simp
  have "sint (localB + stateSizeBudgetChunk) = signed_take_bit 63 (sint localB + 2 ^ 20)"
    by (simp add: sint_word_ariths stateSizeBudgetChunk_def)
  also have "\<dots> = sint localB + 2 ^ 20"
    using neg lo by (intro signed_take_bit_int_eq_self) auto
  finally show "((localB + stateSizeBudgetChunk, remaining), (localB, globalB))
      \<in> measure (\<lambda>(l, g). nat (- sint l))"
    using neg by simp
qed

declare budgetLoop.simps [simp del]

definition writeBlock ::
  "('f, 'sf, 'sp, 'flt, 'br, 'col) stats_env \<Rightarrow> ('f, 'sf, 'flt, 'sp) pipeStatsProcessor \<Rightarrow> nat \<Rightarrow> 'br \<Rightarrow>
   panic + ('f, 'sf, 'flt, 'sp) pipeStatsProcessor"
where
  "writeBlock E psp workerID br =
     (if rowsLen (blk E) br = 0 then Inr psp
      else if workerID \<ge> length (shards psp) then Inl IndexOutOfRange
      else
        (let shard = shards psp ! workerID
         in case budgetLoop (stateSizeBudget shard) (globalBudget psp) of
              Dropped l g c \<Rightarrow>
                Inr (psp\<lparr>shards := (shards psp)[workerID := shard\<lparr>stateSizeBudget := l\<rparr>],
                         globalBudget := g,
                         cancelCalls := (if c then cancelCalls psp + 1 else cancelCalls psp)\<rparr>)
            | Proceed l g \<Rightarrow>
                (case shard_writeBlock E (psp_ps psp) (shard\<lparr>stateSizeBudget := l\<rparr>) br of
                   Inl p \<Rightarrow> Inl p
                 | Inr shard1 \<Rightarrow>
                     Inr (psp\<lparr>shards := (shards psp)[workerID := shard1], globalBudget := g\<rparr>))))"

subsection \<open>\<^verbatim>\<open>flush\<close>: merging the shards and writing the result\<close>

text \<open>
  Go leaves the order of a \<^verbatim>\<open>range\<close> over a map open. \<open>go_range seed xs\<close> lists the
  entries \<open>xs\<close> of a map in the order chosen by \<open>seed\<close>: each number of the seed picks
  the next entry among those not yet visited. Every order is the order of some seed.
\<close>

function go_range :: "nat list \<Rightarrow> 'a list \<Rightarrow> 'a list" where
  "go_range seed [] = []"
| "go_range [] (x # xs) = x # xs"
| "go_range (s # seed) (x # xs) =
     (let i = s mod length (x # xs)
      in ((x # xs) ! i) # go_range seed (take i (x # xs) @ drop (Suc i) (x # xs)))"
  by pat_completeness auto
termination
  by (relation "measure (\<lambda>(seed, xs). length xs)") auto

text \<open>
  What \<^verbatim>\<open>flush\<close> observes of its surroundings: \<open>needStop k\<close> is the answer of the
  \<open>k\<close>-th poll of \<^verbatim>\<open>stopCh\<close>, and \<open>rangeSeed k\<close> fixes the order of the \<open>k\<close>-th
  \<^verbatim>\<open>range\<close> loop over a map (the merge loops first, in shard order, then the loop that
  writes the groups).
\<close>

record schedule =
  needStop :: "nat \<Rightarrow> bool"
  rangeSeed :: "nat \<Rightarrow> nat list"

datatype 'a loop_result = Done 'a | Stop | Panicked panic

text \<open>\<^verbatim>\<open>for i, sfp := range spgBase.sfps { sfp.mergeState(psg.sfps[i]) }\<close>\<close>

fun mergeSfps ::
  "('f, 'sf, 'sp, 'flt, 'br, 'col) stats_env \<Rightarrow> 'sp list \<Rightarrow> 'sp list \<Rightarrow> panic + 'sp list"
where
  "mergeSfps E [] src = Inr []"
| "mergeSfps E (sfp # rest) [] = Inl IndexOutOfRange"
| "mergeSfps E (sfp # rest) (x # src) =
     (case mergeSfps E rest src of
        Inl p \<Rightarrow> Inl p
      | Inr rest' \<Rightarrow> Inr (mergeState E sfp x # rest'))"

text \<open>
  The loop over the entries of one shard's map, folding them into the map \<open>m\<close> of the
  first shard; \<open>polls\<close> counts the polls of \<^verbatim>\<open>stopCh\<close> made so far. A group moved into
  \<open>m\<close> is shared with the shard it came from; that shard's map is not read again unless
  \<open>m\<close> stayed empty, so the model copies the group.
\<close>

fun mergeShardMap ::
  "('f, 'sf, 'sp, 'flt, 'br, 'col) stats_env \<Rightarrow> (nat \<Rightarrow> bool) \<Rightarrow> (string \<times> 'sp pipeStatsGroup) list \<Rightarrow>
   (string \<times> 'sp pipeStatsGroup) list \<times> nat \<Rightarrow> ((string \<times> 'sp pipeStatsGroup) list \<times> nat) loop_result"
where
  "mergeShardMap E stop [] acc = Done acc"
| "mergeShardMap E stop ((key, psg) # rest) (m, polls) =
     (if stop polls then Stop
      else
        (case map_of m key of
           None \<Rightarrow> mergeShardMap E stop rest (AList.update key psg m, Suc polls)
         | Some spgBase \<Rightarrow>
             (case mergeSfps E (sfps spgBase) (sfps psg) of
                Inl p \<Rightarrow> Panicked p
              | Inr sps \<Rightarrow>
                  mergeShardMap E stop rest (AList.update key (spgBase\<lparr>sfps := sps\<rparr>) m, Suc polls))))"

fun mergeShards ::
  "('f, 'sf, 'sp, 'flt, 'br, 'col) stats_env \<Rightarrow> schedule \<Rightarrow> 'sp pipeStatsProcessorShard list \<Rightarrow> nat \<Rightarrow>
   (string \<times> 'sp pipeStatsGroup) list \<times> nat \<Rightarrow> ((string \<times> 'sp pipeStatsGroup) list \<times> nat) loop_result"
where
  "mergeShards E S [] i acc = Done acc"
| "mergeShards E S (shard # rest) i acc =
     (case mergeShardMap E (needStop S) (go_range (rangeSeed S i) (shard_m shard)) acc of
        Done acc1 \<Rightarrow> mergeShards E S rest (Suc i) acc1
      | Stop \<Rightarrow> Stop
      | Panicked p \<Rightarrow> Panicked p)"

text \<open>
  The loop of \<^verbatim>\<open>flush\<close> that decodes a key into the values of the by-fields.
\<close>

function unmarshalKey :: "string \<Rightarrow> string list \<Rightarrow> panic + string list" where
  "unmarshalKey kbuf vals =
     (if length kbuf > 0 then
        (case UnmarshalBytes kbuf of
           (v, nSize) \<Rightarrow>
             if nSize \<le> 0 then Inl (PanicBUG ''BUG: cannot unmarshal value from keyBuf'')
             else unmarshalKey (drop nSize kbuf) (vals @ [v]))
      else Inr vals)"
  by pat_completeness auto
termination
  by (relation "measure (\<lambda>(kbuf, vals). length kbuf)") auto

declare unmarshalKey.simps [simp del]

text \<open>
  Modelled from the spec: \<^verbatim>\<open>resultColumn\<close>, \<^verbatim>\<open>appendResultColumnWithName\<close>, \<^verbatim>\<open>addValue\<close>,
  \<^verbatim>\<open>resetValues\<close> and \<^verbatim>\<open>setResultColumns\<close> are declared outside the sources at hand. By
  section 4.8 of the specification a result column is a name with the values added to it,
  and the block written downstream carries the columns of the schema with their current
  values: an output block is the list of its columns.
\<close>

record resultColumn =
  rc_name :: string
  rc_values :: "string list"

text \<open>Modelled from the spec: \<^verbatim>\<open>appendResultColumnWithName\<close> appends a column of that name without values.\<close>

definition appendResultColumnWithName :: "resultColumn list \<Rightarrow> string \<Rightarrow> resultColumn list" where
  "appendResultColumnWithName rcs nm = rcs @ [\<lparr>rc_name = nm, rc_values = []\<rparr>]"

text \<open>Modelled from the spec: \<^verbatim>\<open>addValue\<close> appends one value to a column.\<close>

definition addValue :: "resultColumn \<Rightarrow> string \<Rightarrow> resultColumn" where
  "addValue rc v = rc\<lparr>rc_values := rc_values rc @ [v]\<rparr>"

text \<open>Modelled from the spec: \<^verbatim>\<open>resetValues\<close> empties a column and keeps its name.\<close>

definition resetValues :: "resultColumn \<Rightarrow> resultColumn" where
  "resetValues rc = rc\<lparr>rc_values := []\<rparr>"

text \<open>\<^verbatim>\<open>for i, v := range values { rcs[i].addValue(v); valuesLen += len(v) }\<close>\<close>

fun addValues :: "resultColumn list \<Rightarrow> string list \<Rightarrow> int64 \<Rightarrow> panic + (resultColumn list \<times> int64)" where
  "addValues rcs [] valuesLen = Inr (rcs, valuesLen)"
| "addValues [] (v # vs) valuesLen = Inl IndexOutOfRange"
| "addValues (rc # rcs) (v # vs) valuesLen =
     (case addValues rcs vs (valuesLen + of_nat (length v)) of
        Inl p \<Rightarrow> Inl p
      | Inr (rcs1, n) \<Rightarrow> Inr (addValue rc v # rcs1, n))"

text \<open>
  The loop over the groups of the merged map. \<open>out\<close> is the list of the blocks passed to
  \<^verbatim>\<open>ppBase.writeBlock\<close> so far, oldest first.
\<close>

fun emitGroups ::
  "('f, 'sf, 'sp, 'flt, 'br, 'col) stats_env \<Rightarrow> ('f, 'sf, 'flt) pipeStats \<Rightarrow> (nat \<Rightarrow> bool) \<Rightarrow>
   (string \<times> 'sp pipeStatsGroup) list \<Rightarrow> resultColumn list \<Rightarrow> int64 \<Rightarrow> nat \<Rightarrow> resultColumn list list \<Rightarrow>
   (resultColumn list) loop_result \<times> resultColumn list list"
where
  "emitGroups E ps stop [] rcs valuesLen polls out = (Done rcs, out)"
| "emitGroups E ps stop ((key, psg) # rest) rcs valuesLen polls out =
     (if stop polls then (Stop, out)
      else
        (case unmarshalKey key [] of
           Inl p \<Rightarrow> (Panicked p, out)
         | Inr vals \<Rightarrow>
             if length vals \<noteq> length (byFields ps)
             then (Panicked (PanicBUG ''BUG: unexpected number of values decoded from keyBuf''), out)
             else
               (let vals1 = vals @ map (finalizeStats E) (sfps psg)
                in if length vals1 \<noteq> length rcs
                   then (Panicked (PanicBUG ''BUG: len(values) must be equal to len(rcs)''), out)
                   else
                     (case addValues rcs vals1 valuesLen of
                        Inl p \<Rightarrow> (Panicked p, out)
                      | Inr (rcs1, valuesLen1) \<Rightarrow>
                          if 1000000 \<le>s valuesLen1
                          then emitGroups E ps stop rest (map resetValues rcs1) 0 (Suc polls) (out @ [rcs1])
                          else emitGroups E ps stop rest rcs1 valuesLen1 (Suc polls) out))))"

datatype flush_result = ReturnNil | ReturnError error | FlushPanic panic

text \<open>
  The part of \<^verbatim>\<open>flush\<close> between the budget check and the construction of the result
  columns: the merge of the shards into the map of the first one, and the special case of
  zero matching rows. It yields the map \<^verbatim>\<open>m\<close> that the last loop of \<^verbatim>\<open>flush\<close> ranges
  over, with the number of polls of \<^verbatim>\<open>stopCh\<close> made. After \<^verbatim>\<open>shards = shards[1:]\<close> the
  name \<^verbatim>\<open>shards\<close> stands for the shards after the first one (\<open>rest\<close> below), and it still
  does in the special case.
\<close>

definition mergeStates ::
  "('f, 'sf, 'sp, 'flt, 'br, 'col) stats_env \<Rightarrow> schedule \<Rightarrow> ('f, 'sf, 'flt, 'sp) pipeStatsProcessor \<Rightarrow>
   ((string \<times> 'sp pipeStatsGroup) list \<times> nat) loop_result"
where
  "mergeStates E S psp =
     (case shards psp of
        [] \<Rightarrow> Panicked IndexOutOfRange
      | shard0 # rest \<Rightarrow>
          (case mergeShards E S rest 0 (shard_m shard0, 0) of
             Stop \<Rightarrow> Stop
           | Panicked p \<Rightarrow> Panicked p
           | Done (m, polls) \<Rightarrow>
               if length (byFields (psp_ps psp)) = 0 \<and> length m = 0
               then (case rest of
                       [] \<Rightarrow> Panicked IndexOutOfRange
                     | shard1 # _ \<Rightarrow> Done (shard_m (getPipeStatsGroup E (psp_ps psp) shard1 []), polls))
               else Done (m, polls)))"

text \<open>
  \<open>flush\<close> returns what the Go function returns (or the panic that ends it) and the list
  of the blocks it passed to \<^verbatim>\<open>ppBase.writeBlock\<close>.
\<close>

definition flush ::
  "('f, 'sf, 'sp, 'flt, 'br, 'col) stats_env \<Rightarrow> schedule \<Rightarrow> ('f, 'sf, 'flt, 'sp) pipeStatsProcessor \<Rightarrow>
   flush_result \<times> resultColumn list list"
where
  "flush E S psp =
     (if globalBudget psp \<le>s 0 then
        (case pipeStats_String E (psp_ps psp) of
           Inl p \<Rightarrow> (FlushPanic p, [])
         | Inr str \<Rightarrow>
             (ReturnError
                (Errorf ''cannot calculate [%s], since it requires more than %dMB of memory''
                   [ArgS str, ArgD (sint (maxStateSize psp) sdiv 2 ^ 20)]), []))
      else
        (case mergeStates E S psp of
           Stop \<Rightarrow> (ReturnNil, [])
         | Panicked p \<Rightarrow> (FlushPanic p, [])
         | Done (m, polls) \<Rightarrow>
             (let rcs0 = foldl appendResultColumnWithName [] (map name (byFields (psp_ps psp)));
                  rcs = foldl appendResultColumnWithName rcs0 (map resultName (funcs (psp_ps psp)))
              in case emitGroups E (psp_ps psp) (needStop S)
                        (go_range (rangeSeed S (length (shards psp) - 1)) m) rcs 0 polls [] of
                   (Done rcs1, out) \<Rightarrow> (ReturnNil, out @ [rcs1])
                 | (Stop, out) \<Rightarrow> (ReturnNil, out)
                 | (Panicked p, out) \<Rightarrow> (FlushPanic p, out))))"

text \<open>A run of \<^verbatim>\<open>writeBlock\<close> calls, each with its worker and its block, in the order they take effect.\<close>

fun writeBlocks ::
  "('f, 'sf, 'sp, 'flt, 'br, 'col) stats_env \<Rightarrow> ('f, 'sf, 'flt, 'sp) pipeStatsProcessor \<Rightarrow> (nat \<times> 'br) list \<Rightarrow>
   panic + ('f, 'sf, 'flt, 'sp) pipeStatsProcessor"
where
  "writeBlocks E psp [] = Inr psp"
| "writeBlocks E psp ((workerID, br) # calls) =
     (case writeBlock E psp workerID br of
        Inl p \<Rightarrow> Inl p
      | Inr psp1 \<Rightarrow> writeBlocks E psp1 calls)"

text \<open>
  \<^verbatim>\<open>newPipeProcessor\<close>: \<open>workersCount\<close> shards with an empty map and one chunk of budget
  each; the rest of \<open>maxStateSize\<close> (that is \<^verbatim>\<open>int64(float64(memory.Allowed()) * 0.3)\<close>, taken
  as the argument \<open>allowed\<close>) is the global budget.
\<close>

definition newShard :: "'sp pipeStatsProcessorShard" where
  "newShard = \<lparr>shard_m = [], columnValues = [], keyBuf = [], stateSizeBudget = stateSizeBudgetChunk\<rparr>"

definition newPipeProcessor ::
  "('f, 'sf, 'flt) pipeStats \<Rightarrow> nat \<Rightarrow> int64 \<Rightarrow> ('f, 'sf, 'flt, 'sp) pipeStatsProcessor"
where
  "newPipeProcessor ps workersCount allowed =
     (let mx = allowed - of_nat workersCount * stateSizeBudgetChunk
      in \<lparr>psp_ps = ps, shards = replicate workersCount newShard, maxStateSize = mx,
          globalBudget = mx, cancelCalls = 0\<rparr>)"

subsection \<open>The parser of the \<^verbatim>\<open>stats\<close> pipe\<close>

text \<open>
  The lexer, the parsers of field names and filters, the parsers of the single stats
  functions and the parsers of numbers are declared outside the sources at hand. A lexer
  state is a value of \<open>'lex\<close>; a Go function that advances the lexer returns the new
  state with its result. \<open>token\<close> is \<^verbatim>\<open>lex.token\<close>. \<open>parseStatsImpl nm\<close> is the parser
  \<^verbatim>\<open>parseStatsCount\<close>, \<^verbatim>\<open>parseStatsSum\<close>, ... of the function called \<open>nm\<close>;
  \<open>filterNeededFields\<close> is the result of \<^verbatim>\<open>updateNeededFields\<close> on a new field set,
  read with \<^verbatim>\<open>getAll\<close>. The \<^verbatim>\<open>nsecsPer...\<close> fields are the constants of these names
  as \<^verbatim>\<open>float64\<close>, \<open>float64_one\<close> is \<^verbatim>\<open>float64(1)\<close>.
\<close>

record ('lex, 'f, 'sf, 'flt) parse_env =
  token :: "'lex \<Rightarrow> string"
  isKeyword :: "'lex \<Rightarrow> string list \<Rightarrow> bool"
  nextToken :: "'lex \<Rightarrow> 'lex"
  getCompoundPhrase :: "'lex \<Rightarrow> bool \<Rightarrow> error + (string \<times> 'lex)"
  getCompoundToken :: "'lex \<Rightarrow> error + (string \<times> 'lex)"
  getCanonicalColumnName :: "string \<Rightarrow> string"
  tryParseFloat64 :: "string \<Rightarrow> 'f option"
  tryParseDuration :: "string \<Rightarrow> int64 option"
  tryParseBytes :: "string \<Rightarrow> int64 option"
  tryParseIPv4Mask :: "string \<Rightarrow> 64 word option"
  float64_of_int64 :: "int64 \<Rightarrow> 'f"
  float64_of_uint64 :: "64 word \<Rightarrow> 'f"
  float64_one :: "'f"
  nsecsPerMicrosecond :: "'f"
  nsecsPerMillisecond :: "'f"
  nsecsPerSecond :: "'f"
  nsecsPerMinute :: "'f"
  nsecsPerHour :: "'f"
  nsecsPerDay :: "'f"
  nsecsPerWeek :: "'f"
  parseFilter :: "'lex \<Rightarrow> error + ('flt \<times> 'lex)"
  filterNoop :: "'flt"
  filterNeededFields :: "'flt \<Rightarrow> string list"
  parseStatsImpl :: "string \<Rightarrow> 'lex \<Rightarrow> error + ('sf \<times> 'lex)"
  statsFuncString :: "'sf \<Rightarrow> string"

definition tryParseBucketOffset :: "('lex, 'f, 'sf, 'flt) parse_env \<Rightarrow> string \<Rightarrow> 'f option" where
  "tryParseBucketOffset P str =
     (case tryParseFloat64 P str of
        Some x \<Rightarrow> Some x
      | None \<Rightarrow>
          (case tryParseDuration P str of
             Some nsecs \<Rightarrow> Some (float64_of_int64 P nsecs)
           | None \<Rightarrow>
               (case tryParseBytes P str of
                  Some n \<Rightarrow> Some (float64_of_int64 P n)
                | None \<Rightarrow> None)))"

definition tryParseBucketSize :: "('lex, 'f, 'sf, 'flt) parse_env \<Rightarrow> string \<Rightarrow> 'f option" where
  "tryParseBucketSize P str =
     (if str = ''nanosecond'' then Some (float64_one P)
      else if str = ''microsecond'' then Some (nsecsPerMicrosecond P)
      else if str = ''millisecond'' then Some (nsecsPerMillisecond P)
      else if str = ''second'' then Some (nsecsPerSecond P)
      else if str = ''minute'' then Some (nsecsPerMinute P)
      else if str = ''hour'' then Some (nsecsPerHour P)
      else if str = ''day'' then Some (nsecsPerDay P)
      else if str = ''week'' then Some (nsecsPerWeek P)
      else
        (case tryParseFloat64 P str of
           Some x \<Rightarrow> Some x
         | None \<Rightarrow>
             (case tryParseDuration P str of
                Some nsecs \<Rightarrow> Some (float64_of_int64 P nsecs)
              | None \<Rightarrow>
                  (case tryParseBytes P str of
                     Some n \<Rightarrow> Some (float64_of_int64 P n)
                   | None \<Rightarrow>
                       (case tryParseIPv4Mask P str of
                          Some n \<Rightarrow> Some (float64_of_uint64 P n)
                        | None \<Rightarrow> None)))))"

text \<open>
  The block \<^verbatim>\<open>if lex.isKeyword(":") { ... }\<close> of \<^verbatim>\<open>parseByStatsFields\<close>, which reads the
  bucket size and the bucket offset of the field \<open>bf\<close>; \<open>lx\<close> is the lexer before the
  test of the colon.
\<close>

definition parseBucketConfig ::
  "('lex, 'f, 'sf, 'flt) parse_env \<Rightarrow> string \<Rightarrow> 'f byStatsField \<Rightarrow> 'lex \<Rightarrow> error + ('f byStatsField \<times> 'lex)"
where
  "parseBucketConfig P fieldName bf lx =
     (if isKeyword P lx ['':''] then
        (let lx1 = nextToken P lx;
             sizeStr0 = token P lx1;
             lx2 = nextToken P lx1;
             (sizeStr, lx3) = (if sizeStr0 = ''/'' then (sizeStr0 @ token P lx2, nextToken P lx2)
                                else (sizeStr0, lx2))
         in case (if sizeStr \<noteq> ''year'' \<and> sizeStr \<noteq> ''month''
                  then (case tryParseBucketSize P sizeStr of
                          None \<Rightarrow> Inl (Errorf ''cannot parse bucket size for field %q: %q''
                                          [ArgQ fieldName, ArgQ sizeStr])
                        | Some x \<Rightarrow> Inr (bf\<lparr>bucketSize := x\<rparr>))
                  else Inr bf) of
              Inl e \<Rightarrow> Inl e
            | Inr bf1 \<Rightarrow>
                (let bf2 = bf1\<lparr>bucketSizeStr := sizeStr\<rparr>
                 in if isKeyword P lx3 [''offset''] then
                      (let lx4 = nextToken P lx3;
                           offStr0 = token P lx4;
                           lx5 = nextToken P lx4;
                           (offStr, lx6) = (if offStr0 = ''-'' then (offStr0 @ token P lx5, nextToken P lx5)
                                             else (offStr0, lx5))
                       in case tryParseBucketOffset P offStr of
                            None \<Rightarrow> Inl (Errorf ''cannot parse bucket offset for field %q: %q''
                                            [ArgQ fieldName, ArgQ offStr])
                          | Some x \<Rightarrow> Inr (bf2\<lparr>bucketOffsetStr := offStr, bucketOffset := x\<rparr>, lx6))
                    else Inr (bf2, lx3)))
      else Inr (bf, lx))"

text \<open>
  The loop of \<^verbatim>\<open>parseByStatsFields\<close>. Whether it ends depends on the lexer, so a run
  that never returns has the value \<open>None\<close>.
\<close>

partial_function (option) parseByStatsFields_loop ::
  "('lex, 'f :: zero, 'sf, 'flt) parse_env \<Rightarrow> 'lex \<Rightarrow> 'f byStatsField list \<Rightarrow>
   (error + ('f byStatsField list \<times> 'lex)) option"
where
  "parseByStatsFields_loop P lx0 bfs =
     (let lx = nextToken P lx0
      in if isKeyword P lx ['')''] then Some (Inr (bfs, nextToken P lx))
         else
           (case getCompoundPhrase P lx False of
              Inl err \<Rightarrow> Some (Inl (Errorf ''cannot parse field name: %w'' [ArgW err]))
            | Inr (fieldName0, lx1) \<Rightarrow>
                (let fieldName = getCanonicalColumnName P fieldName0;
                     bf = \<lparr>name = fieldName, bucketSizeStr = [], bucketSize = 0,
                           bucketOffsetStr = [], bucketOffset = 0\<rparr>
                 in case parseBucketConfig P fieldName bf lx1 of
                      Inl e \<Rightarrow> Some (Inl e)
                    | Inr (bf1, lx2) \<Rightarrow>
                        if isKeyword P lx2 ['')''] then Some (Inr (bfs @ [bf1], nextToken P lx2))
                        else if isKeyword P lx2 ['',''] then parseByStatsFields_loop P lx2 (bfs @ [bf1])
                        else Some (Inl (Errorf (''unexpected token: %q; expecting ',' or ')'' @ [CHR 0x27])
                                          [ArgQ (token P lx2)])))))"

definition parseByStatsFields ::
  "('lex, 'f :: zero, 'sf, 'flt) parse_env \<Rightarrow> 'lex \<Rightarrow> (error + ('f byStatsField list \<times> 'lex)) option"
where
  "parseByStatsFields P lx =
     (if \<not> isKeyword P lx [''(''] then Some (Inl (Errorf (''missing '' @ [CHR 0x60] @ ''('' @ [CHR 0x60]) []))
      else parseByStatsFields_loop P lx [])"

definition parseFieldName ::
  "('lex, 'f, 'sf, 'flt) parse_env \<Rightarrow> 'lex \<Rightarrow> error + (string \<times> 'lex)"
where
  "parseFieldName P lx =
     (case getCompoundToken P lx of
        Inl err \<Rightarrow> Inl (Errorf ''cannot parse field name: %w'' [ArgW err])
      | Inr (fieldName, lx1) \<Rightarrow> Inr (getCanonicalColumnName P fieldName, lx1))"

definition parseResultName ::
  "('lex, 'f, 'sf, 'flt) parse_env \<Rightarrow> 'lex \<Rightarrow> error + (string \<times> 'lex)"
where
  "parseResultName P lx =
     (let lx1 = (if isKeyword P lx [''as''] then nextToken P lx else lx)
      in case parseFieldName P lx1 of
           Inl err \<Rightarrow> Inl err
         | Inr r \<Rightarrow> Inr r)"

definition parseIfFilter ::
  "('lex, 'f, 'sf, 'flt) parse_env \<Rightarrow> 'lex \<Rightarrow> error + ('flt \<times> 'lex)"
where
  "parseIfFilter P lx =
     (if \<not> isKeyword P lx [''if'']
      then Inl (Errorf (''unexpected keyword %q; expecting 'if'' @ [CHR 0x27]) [ArgQ (token P lx)])
      else
        (let lx1 = nextToken P lx
         in if \<not> isKeyword P lx1 [''('']
            then Inl (Errorf (''unexpected token %q after 'if'; expecting '('' @ [CHR 0x27]) [ArgQ (token P lx1)])
            else
              (let lx2 = nextToken P lx1
               in if isKeyword P lx2 ['')''] then Inr (filterNoop P, nextToken P lx2)
                  else
                    (case parseFilter P lx2 of
                       Inl err \<Rightarrow> Inl (Errorf ''cannot parse 'if' filter: %w'' [ArgW err])
                     | Inr (flt, lx3) \<Rightarrow>
                         if \<not> isKeyword P lx3 ['')'']
                         then Inl (Errorf (''unexpected token %q after 'if' filter; expecting ')'' @ [CHR 0x27])
                                     [ArgQ (token P lx3)])
                         else Inr (flt, nextToken P lx3)))))"

text \<open>
  The names that \<^verbatim>\<open>parseStatsFunc\<close> tests, in the order of its \<^verbatim>\<open>switch\<close>; every case
  calls the parser of that function and wraps its error.
\<close>

definition statsFuncNames :: "string list" where
  "statsFuncNames =
     [''count'', ''count_empty'', ''count_uniq'', ''sum'', ''max'', ''min'', ''avg'',
      ''uniq_values'', ''values'', ''sum_len'', ''quantile'', ''median'']"

fun parseStatsFunc_cases ::
  "('lex, 'f, 'sf, 'flt) parse_env \<Rightarrow> string list \<Rightarrow> 'lex \<Rightarrow> error + ('sf \<times> 'lex)"
where
  "parseStatsFunc_cases P [] lx = Inl (Errorf ''unknown stats func %q'' [ArgQ (token P lx)])"
| "parseStatsFunc_cases P (nm # nms) lx =
     (if isKeyword P lx [nm] then
        (case parseStatsImpl P nm lx of
           Inl err \<Rightarrow> Inl (Errorf (''cannot parse '' @ [CHR 0x27] @ nm @ [CHR 0x27] @ '' func: %w'') [ArgW err])
         | Inr r \<Rightarrow> Inr r)
      else parseStatsFunc_cases P nms lx)"

definition parseStatsFunc ::
  "('lex, 'f, 'sf, 'flt) parse_env \<Rightarrow> 'lex \<Rightarrow> error + ('sf \<times> 'lex)"
where
  "parseStatsFunc P lx = parseStatsFunc_cases P statsFuncNames lx"

text \<open>
  One pass of the loop of \<^verbatim>\<open>parsePipeStats\<close> up to \<^verbatim>\<open>funcs = append(funcs, f)\<close>: it
  parses one function with its filter and its result name.
\<close>

definition parsePipeStatsFunc ::
  "('lex, 'f, 'sf, 'flt) parse_env \<Rightarrow> 'lex \<Rightarrow> error + (('sf, 'flt) pipeStatsFunc \<times> 'lex)"
where
  "parsePipeStatsFunc P lx =
     (case parseStatsFunc P lx of
        Inl err \<Rightarrow> Inl err
      | Inr (sf, lx1) \<Rightarrow>
          (let fn = \<lparr>sfunc = sf, neededFieldsForFunc = [], iff = None, resultName = []\<rparr>
           in case (if isKeyword P lx1 [''if''] then
                      (case parseIfFilter P lx1 of
                         Inl err \<Rightarrow> Inl (Errorf ''cannot parse 'if' filter for %s: %w''
                                           [ArgS (statsFuncString P sf), ArgW err])
                       | Inr (flt, lx2) \<Rightarrow>
                           Inr (fn\<lparr>iff := Some flt, neededFieldsForFunc := filterNeededFields P flt\<rparr>, lx2))
                    else Inr (fn, lx1)) of
                Inl err \<Rightarrow> Inl err
              | Inr (fn1, lx3) \<Rightarrow>
                  (case parseResultName P lx3 of
                     Inl err \<Rightarrow> Inl (Errorf ''cannot parse result name for %s: %w''
                                       [ArgS (statsFuncString P sf), ArgW err])
                   | Inr (nm, lx4) \<Rightarrow> Inr (fn1\<lparr>resultName := nm\<rparr>, lx4))))"

partial_function (option) parsePipeStats_loop ::
  "('lex, 'f, 'sf, 'flt) parse_env \<Rightarrow> 'f byStatsField list \<Rightarrow> 'lex \<Rightarrow> ('sf, 'flt) pipeStatsFunc list \<Rightarrow>
   (error + (('f, 'sf, 'flt) pipeStats \<times> 'lex)) option"
where
  "parsePipeStats_loop P bfs lx fns =
     (case parsePipeStatsFunc P lx of
        Inl err \<Rightarrow> Some (Inl err)
      | Inr (fn, lx1) \<Rightarrow>
          if isKeyword P lx1 [''|'', '')'', []]
          then Some (Inr (\<lparr>byFields = bfs, funcs = fns @ [fn]\<rparr>, lx1))
          else if \<not> isKeyword P lx1 ['','']
          then Some (Inl (Errorf (''unexpected token %q; want ',', '|' or ')'' @ [CHR 0x27])
                            [ArgQ (token P lx1)]))
          else parsePipeStats_loop P bfs (nextToken P lx1) (fns @ [fn]))"

definition parsePipeStats ::
  "('lex, 'f :: zero, 'sf, 'flt) parse_env \<Rightarrow> 'lex \<Rightarrow> (error + (('f, 'sf, 'flt) pipeStats \<times> 'lex)) option"
where
  "parsePipeStats P lx =
     (if \<not> isKeyword P lx [''stats'']
      then Some (Inl (Errorf (''expecting 'stats'; got %q'') [ArgQ (token P lx)]))
      else
        (let lx1 = nextToken P lx
         in if isKeyword P lx1 [''by'', ''('']
            then
              (let lx2 = (if isKeyword P lx1 [''by''] then nextToken P lx1 else lx1)
               in case parseByStatsFields P lx2 of
                    None \<Rightarrow> None
                  | Some (Inl err) \<Rightarrow> Some (Inl (Errorf ''cannot parse 'by' clause: %w'' [ArgW err]))
                  | Some (Inr (bfs, lx3)) \<Rightarrow> parsePipeStats_loop P bfs lx3 [])
            else parsePipeStats_loop P [] lx1 []))"

subsection \<open>A small instance\<close>

text \<open>
  Modelled from the spec: a concrete block, aggregator set and lexer, used to run the
  definitions above on explicit inputs. By section 3 of the specification a block is a
  batch of rows laid out as named columns of strings; here a column is constant in no
  case, a missing column reads as empty strings, and values are their own bucket.
\<close>

type_synonym ex_col = "string \<times> string list"

record ex_block =
  ex_rows :: nat
  ex_cols :: "ex_col list"

definition ex_getColumnByName :: "ex_block \<Rightarrow> string \<Rightarrow> ex_col" where
  "ex_getColumnByName br nm =
     (case map_of (ex_cols br) nm of
        Some vs \<Rightarrow> (nm, vs)
      | None \<Rightarrow> (nm, replicate (ex_rows br) []))"

definition ex_getValueAtRow :: "ex_col \<Rightarrow> ex_block \<Rightarrow> nat \<Rightarrow> string" where
  "ex_getValueAtRow c br i = (if i < length (snd c) then snd c ! i else [])"

definition ex_blk :: "(ex_block, ex_col, int byStatsField) block_ops" where
  "ex_blk =
     \<lparr>rowsLen = ex_rows, getColumns = ex_cols, getColumnByName = ex_getColumnByName,
      colName = fst, isConst = (\<lambda>c. False), valuesEncoded = snd,
      getValueAtRow = ex_getValueAtRow,
      getBucketedValue = (\<lambda>br v bf. v),
      getValuesBucketed = (\<lambda>c br bf. snd c)\<rparr>"

text \<open>
  Modelled from the spec: the aggregators of the instance are \<^verbatim>\<open>count(*)\<close>, the total
  row count written as a decimal number (section 4.4), and \<^verbatim>\<open>row_any\<close> as defined above.
\<close>

datatype ex_func = CountAll | RowAny statsRowAny

datatype ex_state = CountState nat | RowAnyState statsRowAnyProcessor

function decimal :: "nat \<Rightarrow> string" where
  "decimal n = (if n < 10 then [char_of (48 + n)] else decimal (n div 10) @ [char_of (48 + n mod 10)])"
  by pat_completeness auto
termination
  by (relation "measure (\<lambda>n. n)") auto

declare decimal.simps [simp del]

fun ex_newStatsProcessor :: "ex_func \<Rightarrow> ex_state \<times> int64" where
  "ex_newStatsProcessor CountAll = (CountState 0, 8)"
| "ex_newStatsProcessor (RowAny a) = (RowAnyState \<lparr>sa = a, captured = False, sap_fields = []\<rparr>, 40)"

fun ex_updateStatsForAllRows :: "ex_state \<Rightarrow> ex_block \<Rightarrow> ex_state \<times> int64" where
  "ex_updateStatsForAllRows (CountState n) br = (CountState (n + ex_rows br), 0)"
| "ex_updateStatsForAllRows (RowAnyState sap) br =
     (case row_any_updateStatsForAllRows ex_blk sap br of (sap1, n) \<Rightarrow> (RowAnyState sap1, n))"

fun ex_updateStatsForRow :: "ex_state \<Rightarrow> ex_block \<Rightarrow> nat \<Rightarrow> ex_state \<times> int64" where
  "ex_updateStatsForRow (CountState n) br i = (CountState (n + 1), 0)"
| "ex_updateStatsForRow (RowAnyState sap) br i =
     (case row_any_updateStatsForRow ex_blk sap br i of (sap1, n) \<Rightarrow> (RowAnyState sap1, n))"

fun ex_mergeState :: "ex_state \<Rightarrow> ex_state \<Rightarrow> ex_state" where
  "ex_mergeState (CountState a) (CountState b) = CountState (a + b)"
| "ex_mergeState (RowAnyState a) (RowAnyState b) = RowAnyState (row_any_mergeState a b)"
| "ex_mergeState a b = a"

fun ex_finalizeStats :: "ex_state \<Rightarrow> string" where
  "ex_finalizeStats (CountState n) = decimal n"
| "ex_finalizeStats (RowAnyState sap) = row_any_finalizeStats fieldsToJSON sap"

fun ex_sfString :: "ex_func \<Rightarrow> string" where
  "ex_sfString CountAll = ''count(*)''"
| "ex_sfString (RowAny a) = ''row_any('' @ join (sa_fields a) '', '' @ '')''"

definition ex_env :: "(int, ex_func, ex_state, unit, ex_block, ex_col) stats_env" where
  "ex_env =
     \<lparr>blk = ex_blk,
      newStatsProcessor = ex_newStatsProcessor,
      updateStatsForAllRows = ex_updateStatsForAllRows,
      updateStatsForRow = ex_updateStatsForRow,
      mergeState = ex_mergeState,
      finalizeStats = ex_finalizeStats,
      sfString = ex_sfString,
      filterString = (\<lambda>u. ''*''),
      applyToBlockResult = (\<lambda>u br bm. bm),
      resetBlock = \<lparr>ex_rows = 0, ex_cols = []\<rparr>,
      initFromFilterNeededColumns = (\<lambda>br bm needed. br),
      quoteTokenIfNeeded = (\<lambda>str. str)\<rparr>"

definition ex_schedule :: schedule where
  "ex_schedule = \<lparr>needStop = (\<lambda>k. False), rangeSeed = (\<lambda>k. [])\<rparr>"

text \<open>
  Modelled from the spec: the lexer of the instance is the list of the tokens not yet
  consumed; the current token is its head, and the empty string at the end of input
  (the peek-a-token interface of section 4.9). A field name is one token. Numbers are
  decimal digits; the only stats function is \<^verbatim>\<open>count\<close>, written \<^verbatim>\<open>count()\<close> or \<^verbatim>\<open>count(*)\<close>.
\<close>

definition ex_token :: "string list \<Rightarrow> string" where
  "ex_token lx = (case lx of [] \<Rightarrow> [] | t # _ \<Rightarrow> t)"

definition ex_getToken :: "string list \<Rightarrow> error + (string \<times> string list)" where
  "ex_getToken lx = (case lx of [] \<Rightarrow> Inl (Errorf ''missing token'' []) | t # r \<Rightarrow> Inr (t, r))"

fun ex_digits :: "string \<Rightarrow> nat \<Rightarrow> nat option" where
  "ex_digits [] acc = Some acc"
| "ex_digits (c # cs) acc =
     (if 48 \<le> (of_char c :: nat) \<and> (of_char c :: nat) \<le> 57
      then ex_digits cs (10 * acc + (of_char c - 48))
      else None)"

definition ex_tryParseFloat64 :: "string \<Rightarrow> int option" where
  "ex_tryParseFloat64 str = (if str = [] then None else map_option int (ex_digits str 0))"

fun ex_parseStatsImpl :: "string \<Rightarrow> string list \<Rightarrow> error + (ex_func \<times> string list)" where
  "ex_parseStatsImpl nm (t # p # q # r) =
     (if nm = ''count'' \<and> p = ''('' \<and> q = '')'' then Inr (CountAll, r)
      else if nm = ''count'' \<and> p = ''('' \<and> q = ''*'' \<and> ex_token r = '')'' then Inr (CountAll, tl r)
      else Inl (Errorf ''unsupported stats function'' []))"
| "ex_parseStatsImpl nm lx = Inl (Errorf ''unsupported stats function'' [])"

definition ex_parse_env :: "(string list, int, ex_func, unit) parse_env" where
  "ex_parse_env =
     \<lparr>token = ex_token,
      isKeyword = (\<lambda>lx kws. ex_token lx \<in> set kws),
      nextToken = tl,
      getCompoundPhrase = (\<lambda>lx b. ex_getToken lx),
      getCompoundToken = ex_getToken,
      getCanonicalColumnName = (\<lambda>str. if str = [] then ''_msg'' else str),
      tryParseFloat64 = ex_tryParseFloat64,
      tryParseDuration = (\<lambda>str. None),
      tryParseBytes = (\<lambda>str. None),
      tryParseIPv4Mask = (\<lambda>str. None),
      float64_of_int64 = sint,
      float64_of_uint64 = uint,
      float64_one = 1,
      nsecsPerMicrosecond = 1000,
      nsecsPerMillisecond = 1000000,
      nsecsPerSecond = 1000000000,
      nsecsPerMinute = 60000000000,
      nsecsPerHour = 3600000000000,
      nsecsPerDay = 86400000000000,
      nsecsPerWeek = 604800000000000,
      parseFilter = (\<lambda>lx. Inl (Errorf ''unsupported filter'' [])),
      filterNoop = (),
      filterNeededFields = (\<lambda>u. []),
      parseStatsImpl = ex_parseStatsImpl,
      statsFuncString = ex_sfString\<rparr>"

text \<open>
  Plans and blocks of the instance: \<^verbatim>\<open>stats count(*) as n\<close>, \<^verbatim>\<open>stats by (host) count(*) as n\<close>,
  a block without rows and a block of three rows.
\<close>

definition ex_count :: "(ex_func, unit) pipeStatsFunc" where
  "ex_count = \<lparr>sfunc = CountAll, neededFieldsForFunc = [], iff = None, resultName = ''n''\<rparr>"

definition ex_plan :: "(int, ex_func, unit) pipeStats" where
  "ex_plan = \<lparr>byFields = [], funcs = [ex_count]\<rparr>"

definition ex_plan_by :: "(int, ex_func, unit) pipeStats" where
  "ex_plan_by =
     \<lparr>byFields = [\<lparr>name = ''host'', bucketSizeStr = [], bucketSize = 0,
                   bucketOffsetStr = [], bucketOffset = 0\<rparr>],
      funcs = [ex_count]\<rparr>"

definition ex_block0 :: ex_block where
  "ex_block0 = \<lparr>ex_rows = 0, ex_cols = []\<rparr>"

definition ex_block3 :: ex_block where
  "ex_block3 = \<lparr>ex_rows = 3, ex_cols = [(''host'', [''a'', ''b'', ''a'']), (''bytes'', [''1'', ''2'', ''3''])]\<rparr>"

text \<open>
  The states of a \<^verbatim>\<open>row_any\<close> instance that updates and merges can produce hold fields
  only once a row is captured.
\<close>

definition row_any_stateOk :: "statsRowAnyProcessor \<Rightarrow> bool" where
  "row_any_stateOk sap = (captured sap \<or> sap_fields sap = [])"

text \<open>A processor of the instance with one shard, given the shard's budget and the global one.\<close>

definition ex_psp :: "int64 \<Rightarrow> int64 \<Rightarrow> (int, ex_func, unit, ex_state) pipeStatsProcessor" where
  "ex_psp l g =
     \<lparr>psp_ps = ex_plan, shards = [newShard\<lparr>stateSizeBudget := l\<rparr>], maxStateSize = g,
      globalBudget = g, cancelCalls = 0\<rparr>"

declare parseByStatsFields_loop.simps [code]
declare parsePipeStats_loop.simps [code]

text \<open>The processor of the instance after both workers have written \<open>ex_block3\<close> under \<open>ex_plan_by\<close>.\<close>

definition ex_psp_by_host :: "(int, ex_func, unit, ex_state) pipeStatsProcessor" where
  "ex_psp_by_host =
     \<lparr>psp_ps = ex_plan_by,
      shards =
        [\<lparr>shard_m = [([CHR 0x01, CHR ''a''], \<lparr>sfps = [CountState 2]\<rparr>),
                     ([CHR 0x01, CHR ''b''], \<lparr>sfps = [CountState 1]\<rparr>)],
          columnValues = [], keyBuf = [CHR 0x01, CHR ''a''], stateSizeBudget = 1048476\<rparr>,
         \<lparr>shard_m = [([CHR 0x01, CHR ''a''], \<lparr>sfps = [CountState 2]\<rparr>),
                     ([CHR 0x01, CHR ''b''], \<lparr>sfps = [CountState 1]\<rparr>)],
          columnValues = [], keyBuf = [CHR 0x01, CHR ''a''], stateSizeBudget = 1048476\<rparr>],
      maxStateSize = 1071644672, globalBudget = 1071644672, cancelCalls = 0\<rparr>"

text \<open>
  A key is well formed for \<open>n\<close> by-fields when it is the concatenation of the
  \<^verbatim>\<open>MarshalBytes\<close> encodings of \<open>n\<close> values, as the shard builds it.
\<close>

definition wfKey :: "nat \<Rightarrow> string \<Rightarrow> bool" where
  "wfKey n key = (\<exists>vs. length vs = n \<and> key = foldl MarshalBytes [] vs)"

definition keysOk :: "nat \<Rightarrow> (string \<times> 'g) list \<Rightarrow> bool" where
  "keysOk n m = (\<forall>key \<in> fst ` set m. wfKey n key)"


section \<open>Properties\<close>

subsection \<open>The key codec\<close>

lemma MarshalVarUint64_nonempty: "MarshalVarUint64 n \<noteq> []"
  by (subst MarshalVarUint64.simps) simp

lemma UnmarshalVarUint64_Marshal:
  "UnmarshalVarUint64 (MarshalVarUint64 n @ rest) = Some (n, length (MarshalVarUint64 n))"
proof (induction n rule: MarshalVarUint64.induct)
  case (1 u)
  show ?case
  proof (cases "u < 128")
    case True
    then have eq: "MarshalVarUint64 u = [char_of u]"
      by (subst MarshalVarUint64.simps) simp
    show ?thesis
      unfolding eq using True by simp
  next
    case False
    have "u mod 128 < 128"
      by simp
    then have big: "of_char (char_of (u mod 128 + 128) :: char) = u mod 128 + 128"
      by simp
    from False 1 have IH: "UnmarshalVarUint64 (MarshalVarUint64 (u div 128) @ rest)
        = Some (u div 128, length (MarshalVarUint64 (u div 128)))"
      by simp
    have eq: "MarshalVarUint64 u = char_of (u mod 128 + 128) # MarshalVarUint64 (u div 128)"
      using False by (subst MarshalVarUint64.simps) simp
    show ?thesis
      unfolding eq using IH big by simp
  qed
qed

lemma UnmarshalBytes_Marshal:
  "UnmarshalBytes (MarshalBytes [] v @ rest) = (v, length (MarshalBytes [] v))"
  by (simp add: UnmarshalBytes_def MarshalBytes_def UnmarshalVarUint64_Marshal)

lemma MarshalBytes_length_pos: "0 < length (MarshalBytes [] v)"
  by (simp add: MarshalBytes_def MarshalVarUint64_nonempty)

lemma foldl_MarshalBytes: "foldl MarshalBytes dst vs = dst @ concat (map (MarshalBytes []) vs)"
proof (induction vs arbitrary: dst)
  case Nil
  show ?case by simp
next
  case (Cons v vs)
  show ?case
    by (simp add: Cons.IH [of "MarshalBytes dst v"]) (simp add: MarshalBytes_def)
qed

lemma unmarshalKey_concat:
  "unmarshalKey (concat (map (MarshalBytes []) vs)) acc = Inr (acc @ vs)"
proof (induction vs arbitrary: acc)
  case Nil
  show ?case by (subst unmarshalKey.simps) simp
next
  case (Cons v vs)
  have pos: "0 < length (MarshalBytes [] v)" by (rule MarshalBytes_length_pos)
  show ?case
    apply (subst unmarshalKey.simps)
    using pos by (simp add: UnmarshalBytes_Marshal Cons.IH)
qed

lemma unmarshalKey_roundtrip: "unmarshalKey (foldl MarshalBytes [] vs) [] = Inr vs"
  by (simp add: foldl_MarshalBytes unmarshalKey_concat)

subsection \<open>The \<^verbatim>\<open>row_any\<close> aggregator keeps the first row\<close>

lemma updateState_captured: "captured (fst (updateState B sap br i)) = captured sap"
  by (simp add: updateState_def Let_def split: prod.splits)




subsection \<open>Merging \<^verbatim>\<open>row_any\<close> states\<close>

lemma row_any_stateOk_new: "row_any_stateOk \<lparr>sa = a, captured = False, sap_fields = []\<rparr>"
  by (simp add: row_any_stateOk_def)

lemma row_any_stateOk_updateStatsForAllRows:
  "row_any_stateOk sap \<Longrightarrow> row_any_stateOk (fst (row_any_updateStatsForAllRows B sap br))"
  by (simp add: row_any_stateOk_def row_any_updateStatsForAllRows_def updateState_captured)

lemma row_any_stateOk_updateStatsForRow:
  "row_any_stateOk sap \<Longrightarrow> row_any_stateOk (fst (row_any_updateStatsForRow B sap br i))"
  by (simp add: row_any_stateOk_def row_any_updateStatsForRow_def updateState_captured)

lemma row_any_stateOk_mergeState:
  "row_any_stateOk a \<Longrightarrow> row_any_stateOk b \<Longrightarrow> row_any_stateOk (row_any_mergeState a b)"
  by (auto simp add: row_any_stateOk_def row_any_mergeState_def)

text \<open>
  C4, as the code has it. The claim fails for \<^verbatim>\<open>row_any\<close>: when both instances have
  captured a row, \<^verbatim>\<open>mergeState\<close> keeps the row of the receiver, so the two orders of a
  merge finalize to different rows.
\<close>

theorem row_any_merge_not_commutative:
  "row_any_finalizeStats fieldsToJSON
     (row_any_mergeState
        (fst (row_any_updateStatsForAllRows ex_blk \<lparr>sa = \<lparr>sa_fields = []\<rparr>, captured = False, sap_fields = []\<rparr>
                \<lparr>ex_rows = 1, ex_cols = [(''x'', [''1''])]\<rparr>))
        (fst (row_any_updateStatsForAllRows ex_blk \<lparr>sa = \<lparr>sa_fields = []\<rparr>, captured = False, sap_fields = []\<rparr>
                \<lparr>ex_rows = 1, ex_cols = [(''x'', [''2''])]\<rparr>)))
   \<noteq> row_any_finalizeStats fieldsToJSON
     (row_any_mergeState
        (fst (row_any_updateStatsForAllRows ex_blk \<lparr>sa = \<lparr>sa_fields = []\<rparr>, captured = False, sap_fields = []\<rparr>
                \<lparr>ex_rows = 1, ex_cols = [(''x'', [''2''])]\<rparr>))
        (fst (row_any_updateStatsForAllRows ex_blk \<lparr>sa = \<lparr>sa_fields = []\<rparr>, captured = False, sap_fields = []\<rparr>
                \<lparr>ex_rows = 1, ex_cols = [(''x'', [''1''])]\<rparr>)))"
  by (simp add: row_any_updateStatsForAllRows_def updateState_def ex_blk_def ex_getValueAtRow_def
        row_any_mergeState_def row_any_finalizeStats_def fieldsToJSON_def)

text \<open>
  C4, amended. For \<^verbatim>\<open>row_any\<close>, \<^verbatim>\<open>mergeState\<close> is associative; the merge of \<open>a\<close> and
  \<open>b\<close> finalizes to the row of \<open>a\<close> when \<open>a\<close> has captured one and to that of \<open>b\<close>
  otherwise; and the two orders of a merge finalize to the same result whenever the two
  instances, built by updates and merges, have not both captured a row.
\<close>

theorem row_any_merge_first_captured:
  "row_any_mergeState (row_any_mergeState a b) c = row_any_mergeState a (row_any_mergeState b c)
   \<and> row_any_finalizeStats toJSON (row_any_mergeState a b)
       = (if captured a then row_any_finalizeStats toJSON a else row_any_finalizeStats toJSON b)
   \<and> (row_any_stateOk a \<longrightarrow> row_any_stateOk b \<longrightarrow> \<not> (captured a \<and> captured b) \<longrightarrow>
         row_any_finalizeStats toJSON (row_any_mergeState a b)
           = row_any_finalizeStats toJSON (row_any_mergeState b a))"
  by (auto simp add: row_any_mergeState_def row_any_finalizeStats_def row_any_stateOk_def)

theorem row_any_merge_first_captured_witness:
  "row_any_stateOk \<lparr>sa = \<lparr>sa_fields = []\<rparr>, captured = True, sap_fields = [\<lparr>Name = ''x'', Value = ''1''\<rparr>]\<rparr>
   \<and> row_any_stateOk \<lparr>sa = \<lparr>sa_fields = []\<rparr>, captured = False, sap_fields = []\<rparr>
   \<and> row_any_finalizeStats fieldsToJSON
        (row_any_mergeState
           \<lparr>sa = \<lparr>sa_fields = []\<rparr>, captured = True, sap_fields = [\<lparr>Name = ''x'', Value = ''1''\<rparr>]\<rparr>
           \<lparr>sa = \<lparr>sa_fields = []\<rparr>, captured = False, sap_fields = []\<rparr>)
      = row_any_finalizeStats fieldsToJSON
        (row_any_mergeState
           \<lparr>sa = \<lparr>sa_fields = []\<rparr>, captured = False, sap_fields = []\<rparr>
           \<lparr>sa = \<lparr>sa_fields = []\<rparr>, captured = True, sap_fields = [\<lparr>Name = ''x'', Value = ''1''\<rparr>]\<rparr>)"
proof -
  let ?a = "\<lparr>sa = \<lparr>sa_fields = []\<rparr>, captured = True, sap_fields = [\<lparr>Name = ''x'', Value = ''1''\<rparr>]\<rparr>"
  let ?b = "\<lparr>sa = \<lparr>sa_fields = []\<rparr>, captured = False, sap_fields = []\<rparr>"
  have oka: "row_any_stateOk ?a" and okb: "row_any_stateOk ?b"
    by (simp_all add: row_any_stateOk_def)
  have nb: "\<not> (captured ?a \<and> captured ?b)"
    by simp
  from row_any_merge_first_captured [of ?a ?b ?b fieldsToJSON] oka okb nb
  have "row_any_finalizeStats fieldsToJSON (row_any_mergeState ?a ?b)
      = row_any_finalizeStats fieldsToJSON (row_any_mergeState ?b ?a)"
    by blast
  with oka okb show ?thesis
    by blast
qed

subsection \<open>\<^verbatim>\<open>writeBlock\<close> and the memory budget\<close>

text \<open>
  C9. A call of the processor's \<^verbatim>\<open>writeBlock\<close> with a block of zero rows returns at
  once, for every worker ID: the processor (the shards with their maps and aggregator
  states, the local budgets, the global budget and the count of \<^verbatim>\<open>cancel()\<close> calls) is
  as before.
\<close>

theorem writeBlock_no_rows:
  "rowsLen (blk E) br = 0 \<Longrightarrow> writeBlock E psp workerID br = Inr psp"
  by (simp add: writeBlock_def)

theorem writeBlock_no_rows_witness:
  "rowsLen (blk ex_env) ex_block0 = 0
   \<and> writeBlock ex_env (ex_psp (- 5) 5) 7 ex_block0 = Inr (ex_psp (- 5) 5)"
  using writeBlock_no_rows [of ex_env ex_block0 "ex_psp (- 5) 5" 7]
  by (simp add: ex_env_def ex_blk_def ex_block0_def)

text \<open>
  C2. For a call of \<^verbatim>\<open>writeBlock\<close> with a block that has rows: while the shard's budget
  is negative, one chunk is subtracted from the global budget; if the value after the
  subtraction is not negative the chunk is added to the shard's budget and the test is
  made again; otherwise the call returns with the shard as it was (the block is
  dropped), and \<^verbatim>\<open>cancel()\<close> is called exactly when the global budget before this
  subtraction was not negative. Once the shard's budget is not negative the block is
  aggregated by the shard. (\<open>budgetLoop\<close> is a total function: the loop ends.)
\<close>

theorem writeBlock_budget_step:
  assumes "rowsLen (blk E) br \<noteq> 0" and "workerID < length (shards psp)"
  shows "(stateSizeBudget (shards psp ! workerID) <s 0 \<longrightarrow>
            writeBlock E psp workerID br =
              (if 0 \<le>s globalBudget psp - stateSizeBudgetChunk
               then writeBlock E
                      (psp\<lparr>shards := (shards psp)[workerID := (shards psp ! workerID)
                                \<lparr>stateSizeBudget := stateSizeBudget (shards psp ! workerID) + stateSizeBudgetChunk\<rparr>],
                           globalBudget := globalBudget psp - stateSizeBudgetChunk\<rparr>)
                      workerID br
               else Inr (psp\<lparr>globalBudget := globalBudget psp - stateSizeBudgetChunk,
                              cancelCalls := (if 0 \<le>s globalBudget psp then cancelCalls psp + 1
                                              else cancelCalls psp)\<rparr>)))
       \<and> (\<not> stateSizeBudget (shards psp ! workerID) <s 0 \<longrightarrow>
            writeBlock E psp workerID br =
              (case shard_writeBlock E (psp_ps psp) (shards psp ! workerID) br of
                 Inl p \<Rightarrow> Inl p
               | Inr shard1 \<Rightarrow> Inr (psp\<lparr>shards := (shards psp)[workerID := shard1]\<rparr>)))"
proof (intro conjI impI)
  assume neg: "stateSizeBudget (shards psp ! workerID) <s 0"
  let ?sh = "shards psp ! workerID"
  let ?rem = "globalBudget psp - stateSizeBudgetChunk"
  show "writeBlock E psp workerID br =
              (if 0 \<le>s ?rem
               then writeBlock E
                      (psp\<lparr>shards := (shards psp)[workerID := ?sh
                                \<lparr>stateSizeBudget := stateSizeBudget ?sh + stateSizeBudgetChunk\<rparr>],
                           globalBudget := ?rem\<rparr>)
                      workerID br
               else Inr (psp\<lparr>globalBudget := ?rem,
                              cancelCalls := (if 0 \<le>s globalBudget psp then cancelCalls psp + 1
                                              else cancelCalls psp)\<rparr>))"
  proof (cases "0 \<le>s ?rem")
    case True
    then have nl: "\<not> ?rem <s 0" by (simp add: signed.not_less)
    have step: "budgetLoop (stateSizeBudget ?sh) (globalBudget psp)
        = budgetLoop (stateSizeBudget ?sh + stateSizeBudgetChunk) ?rem"
      using neg nl by (subst budgetLoop.simps) (simp add: Let_def)
    show ?thesis
      using assms True
      by (simp add: writeBlock_def Let_def step split: budget_outcome.splits sum.splits)
  next
    case False
    then have lt: "?rem <s 0" by (simp add: signed.not_le)
    have step: "budgetLoop (stateSizeBudget ?sh) (globalBudget psp)
        = Dropped (stateSizeBudget ?sh) ?rem (0 \<le>s globalBudget psp)"
      using neg lt by (subst budgetLoop.simps) (simp add: Let_def)
    show ?thesis
      using assms False by (simp add: writeBlock_def Let_def step list_update_same_conv)
  qed
next
  assume nneg: "\<not> stateSizeBudget (shards psp ! workerID) <s 0"
  have step: "budgetLoop (stateSizeBudget (shards psp ! workerID)) (globalBudget psp)
      = Proceed (stateSizeBudget (shards psp ! workerID)) (globalBudget psp)"
    using nneg by (subst budgetLoop.simps) simp
  show "writeBlock E psp workerID br =
              (case shard_writeBlock E (psp_ps psp) (shards psp ! workerID) br of
                 Inl p \<Rightarrow> Inl p
               | Inr shard1 \<Rightarrow> Inr (psp\<lparr>shards := (shards psp)[workerID := shard1]\<rparr>))"
    using assms by (simp add: writeBlock_def Let_def step split: sum.splits)
qed

lemma ex_rows3: "rowsLen (blk ex_env) ex_block3 \<noteq> 0"
  by (simp add: ex_env_def ex_blk_def ex_block3_def)

theorem writeBlock_budget_step_witness:
  "rowsLen (blk ex_env) ex_block3 \<noteq> 0
   \<and> 0 < length (shards (ex_psp (- 5) 5))
   \<and> stateSizeBudget (shards (ex_psp (- 5) 5) ! 0) <s 0
   \<and> writeBlock ex_env (ex_psp (- 5) 5) 0 ex_block3
       = Inr ((ex_psp (- 5) 5)\<lparr>globalBudget := 5 - stateSizeBudgetChunk, cancelCalls := 1\<rparr>)
   \<and> writeBlock ex_env (ex_psp (- 5) (- 5)) 0 ex_block3
       = Inr ((ex_psp (- 5) (- 5))\<lparr>globalBudget := - 5 - stateSizeBudgetChunk\<rparr>)
   \<and> writeBlock ex_env (ex_psp (- 5) (2 ^ 21)) 0 ex_block3
       = writeBlock ex_env ((ex_psp (2 ^ 20 - 5) (2 ^ 21))\<lparr>globalBudget := 2 ^ 20\<rparr>) 0 ex_block3
   \<and> \<not> stateSizeBudget (shards (ex_psp 7 5) ! 0) <s 0
   \<and> writeBlock ex_env (ex_psp 7 5) 0 ex_block3
       = (case shard_writeBlock ex_env ex_plan (newShard\<lparr>stateSizeBudget := 7\<rparr>) ex_block3 of
            Inl p \<Rightarrow> Inl p
          | Inr shard1 \<Rightarrow> Inr ((ex_psp 7 5)\<lparr>shards := [shard1]\<rparr>))"
  using writeBlock_budget_step [of ex_env ex_block3 0 "ex_psp (- 5) 5", OF ex_rows3]
        writeBlock_budget_step [of ex_env ex_block3 0 "ex_psp (- 5) (- 5)", OF ex_rows3]
        writeBlock_budget_step [of ex_env ex_block3 0 "ex_psp (- 5) (2 ^ 21)", OF ex_rows3]
        writeBlock_budget_step [of ex_env ex_block3 0 "ex_psp 7 5", OF ex_rows3]
  by (simp add: ex_rows3 ex_psp_def stateSizeBudgetChunk_def newShard_def word_sless_alt word_sle_eq
           split: sum.splits)

subsection \<open>What the budget loop leaves behind\<close>

text \<open>
  The exits of the loop at the head of \<^verbatim>\<open>writeBlock\<close>: the block is aggregated only with
  a shard budget that is not negative; the block is dropped only with a global budget
  that the last subtraction made negative, and \<^verbatim>\<open>cancel()\<close> was called exactly when that
  budget was not negative before this subtraction.
\<close>

lemma budgetLoop_Proceed:
  "budgetLoop l g = Proceed l1 g1 \<Longrightarrow> \<not> l1 <s 0"
proof (induction l g rule: budgetLoop.induct)
  case (1 localB globalB)
  show ?case
  proof (cases "localB <s 0")
    case True
    with "1.prems" have nneg: "\<not> globalB + - stateSizeBudgetChunk <s 0"
      by (subst (asm) budgetLoop.simps) (auto simp add: Let_def split: if_splits)
    with True "1.prems" have
      "budgetLoop (localB + stateSizeBudgetChunk) (globalB + - stateSizeBudgetChunk) = Proceed l1 g1"
      by (subst (asm) budgetLoop.simps) (simp add: Let_def)
    with "1.IH" [OF True refl nneg] show ?thesis
      by simp
  next
    case False
    with "1.prems" show ?thesis
      by (subst (asm) budgetLoop.simps) simp
  qed
qed

lemma budgetLoop_Dropped:
  "budgetLoop l g = Dropped l1 g1 c \<Longrightarrow> l1 <s 0 \<and> g1 <s 0 \<and> (c \<longleftrightarrow> 0 \<le>s g1 + stateSizeBudgetChunk)"
proof (induction l g rule: budgetLoop.induct)
  case (1 localB globalB)
  show ?case
  proof (cases "localB <s 0")
    case True
    note neg = this
    show ?thesis
    proof (cases "globalB + - stateSizeBudgetChunk <s 0")
      case True
      with neg "1.prems" show ?thesis
        by (subst (asm) budgetLoop.simps) (auto simp add: Let_def)
    next
      case False
      with neg "1.prems" have
        "budgetLoop (localB + stateSizeBudgetChunk) (globalB + - stateSizeBudgetChunk) = Dropped l1 g1 c"
        by (subst (asm) budgetLoop.simps) (simp add: Let_def)
      with "1.IH" [OF neg refl False] show ?thesis
        by simp
    qed
  next
    case False
    with "1.prems" show ?thesis
      by (subst (asm) budgetLoop.simps) simp
  qed
qed

text \<open>
  Once the global budget is negative (and one more subtraction does not wrap around), a
  call for a shard without budget drops its block and does not call \<^verbatim>\<open>cancel()\<close> again.
\<close>

lemma writeBlock_after_exhaustion:
  assumes "rowsLen (blk E) br \<noteq> 0" and "workerID < length (shards psp)"
    and "stateSizeBudget (shards psp ! workerID) <s 0"
    and "globalBudget psp <s 0" and "- (2 ^ 63) + 2 ^ 20 \<le> sint (globalBudget psp)"
  shows "writeBlock E psp workerID br
     = Inr (psp\<lparr>globalBudget := globalBudget psp - stateSizeBudgetChunk\<rparr>)"
proof -
  let ?g = "globalBudget psp"
  have neg: "sint ?g < 0"
    using assms(4) by (simp add: word_sless_alt)
  have "sint (?g - stateSizeBudgetChunk) = signed_take_bit 63 (sint ?g - 2 ^ 20)"
    by (simp add: sint_word_ariths stateSizeBudgetChunk_def)
  also have "\<dots> = sint ?g - 2 ^ 20"
    using neg assms(5) by (intro signed_take_bit_int_eq_self) auto
  finally have "sint (?g - stateSizeBudgetChunk) < 0"
    using neg by simp
  then have lt: "?g + - stateSizeBudgetChunk <s 0"
    by (simp add: word_sless_alt)
  have nle: "\<not> 0 \<le>s ?g"
    using assms(4) by (simp add: signed.not_le)
  have step: "budgetLoop (stateSizeBudget (shards psp ! workerID)) ?g
      = Dropped (stateSizeBudget (shards psp ! workerID)) (?g - stateSizeBudgetChunk) False"
    using assms(3) lt nle by (subst budgetLoop.simps) (simp add: Let_def)
  show ?thesis
    using assms(1,2) by (simp add: writeBlock_def Let_def step list_update_same_conv)
qed

subsection \<open>\<^verbatim>\<open>flush\<close> and the exhausted budget\<close>

text \<open>
  C3. For a plan with at least one stats function (\<^verbatim>\<open>String()\<close> panics on any other),
  \<^verbatim>\<open>flush\<close> returns an error if and only if the global budget it loads is at most 0; the
  error then carries the rendered pipe and \<^verbatim>\<open>maxStateSize\<close> in MiB, and no block is
  written downstream.
\<close>

theorem flush_error_iff_budget_exhausted:
  assumes "funcs (psp_ps psp) \<noteq> []"
  shows "((\<exists>err. fst (flush E S psp) = ReturnError err) \<longleftrightarrow> globalBudget psp \<le>s 0)
     \<and> (globalBudget psp \<le>s 0 \<longrightarrow>
          (\<exists>str. pipeStats_String E (psp_ps psp) = Inr str \<and>
                 flush E S psp =
                   (ReturnError
                      (Errorf ''cannot calculate [%s], since it requires more than %dMB of memory''
                         [ArgS str, ArgD (sint (maxStateSize psp) sdiv 2 ^ 20)]), [])))"
proof -
  obtain str where str: "pipeStats_String E (psp_ps psp) = Inr str"
    using assms by (simp add: pipeStats_String_def Let_def)
  have pos: "\<not> globalBudget psp \<le>s 0 \<Longrightarrow> \<forall>err. fst (flush E S psp) \<noteq> ReturnError err"
    by (simp add: flush_def Let_def split: loop_result.splits prod.splits)
  show ?thesis
    using str pos by (auto simp add: flush_def)
qed

lemma ex_plan_String: "pipeStats_String ex_env ex_plan = Inr ''stats count(*) as n''"
  by (simp add: pipeStats_String_def ex_plan_def ex_env_def ex_count_def pipeStatsFunc_line_def)

theorem flush_error_iff_budget_exhausted_witness:
  "funcs (psp_ps (ex_psp 7 (- 3145728))) \<noteq> []
   \<and> globalBudget (ex_psp 7 (- 3145728)) \<le>s 0
   \<and> flush ex_env ex_schedule (ex_psp 7 (- 3145728))
       = (ReturnError
            (Errorf ''cannot calculate [%s], since it requires more than %dMB of memory''
               [ArgS ''stats count(*) as n'', ArgD (- 3)]), [])
   \<and> \<not> globalBudget (ex_psp 7 5) \<le>s 0
   \<and> (\<forall>err. fst (flush ex_env ex_schedule (ex_psp 7 5)) \<noteq> ReturnError err)"
proof -
  have f: "funcs (psp_ps (ex_psp 7 g)) \<noteq> []" for g
    by (simp add: ex_psp_def ex_plan_def)
  have s: "sint (- 3145728 :: int64) sdiv 2 ^ 20 = - 3"
    by (simp add: signed_divide_int_def)
  show ?thesis
    using flush_error_iff_budget_exhausted [of "ex_psp 7 (- 3145728)" ex_env ex_schedule, OF f]
          flush_error_iff_budget_exhausted [of "ex_psp 7 5" ex_env ex_schedule, OF f]
          ex_plan_String
    by (simp add: ex_psp_def ex_plan_def s word_sle_eq)
qed

subsection \<open>The schema of the blocks written by \<^verbatim>\<open>flush\<close>\<close>

lemma addValues_names:
  "addValues rcs vals n = Inr (rcs1, n1) \<Longrightarrow> map rc_name rcs1 = map rc_name rcs"
proof (induction rcs vals n arbitrary: rcs1 n1 rule: addValues.induct)
  case (1 rcs valuesLen)
  then show ?case by simp
next
  case (2 v vs valuesLen)
  then show ?case by simp
next
  case (3 rc rcs v vs valuesLen)
  then show ?case
    by (auto simp add: addValue_def split: sum.splits)
qed

lemma resetValues_names: "map rc_name (map resetValues rcs) = map rc_name rcs"
  by (induction rcs) (simp_all add: resetValues_def)

lemma emitGroups_names:
  assumes "emitGroups E ps stop entries rcs n polls out = (r, out1)"
    and "map rc_name rcs = nms"
    and "\<forall>b \<in> set out. map rc_name b = nms"
  shows "(\<forall>b \<in> set out1. map rc_name b = nms) \<and> (\<forall>rcs1. r = Done rcs1 \<longrightarrow> map rc_name rcs1 = nms)"
  using assms
proof (induction entries arbitrary: rcs n polls out)
  case Nil
  then show ?case by auto
next
  case (Cons e entries)
  obtain key psg where e: "e = (key, psg)"
    by (cases e)
  show ?case
  proof (cases "stop polls")
    case True
    with Cons.prems e show ?thesis by auto
  next
    case False
    note ns = this
    show ?thesis
    proof (cases "unmarshalKey key []")
      case (Inl p)
      with Cons.prems e ns show ?thesis by auto
    next
      case (Inr vals)
      let ?vals1 = "vals @ map (finalizeStats E) (sfps psg)"
      show ?thesis
      proof (cases "length vals \<noteq> length (byFields ps)")
        case True
        with Cons.prems e ns Inr show ?thesis by auto
      next
        case False
        note len1 = this
        show ?thesis
        proof (cases "length ?vals1 \<noteq> length rcs")
          case True
          with Cons.prems e ns Inr len1 show ?thesis by (auto simp add: Let_def)
        next
          case False
          note len2 = this
          show ?thesis
          proof (cases "addValues rcs ?vals1 n")
            case (Inl p)
            with Cons.prems e ns Inr len1 len2 show ?thesis by (auto simp add: Let_def)
          next
            case (Inr pr)
            obtain rcs1 n1 where pr: "pr = (rcs1, n1)"
              by (cases pr)
            have nm1: "map rc_name rcs1 = nms"
              using addValues_names [of rcs ?vals1 n rcs1 n1] Inr pr Cons.prems(2) by simp
            show ?thesis
            proof (cases "1000000 \<le>s n1")
              case True
              have run: "emitGroups E ps stop entries (map resetValues rcs1) 0 (Suc polls) (out @ [rcs1]) = (r, out1)"
                using Cons.prems(1) e ns \<open>unmarshalKey key [] = Inr vals\<close> len1 len2 Inr pr True
                by (simp add: Let_def)
              have nm2: "map rc_name (map resetValues rcs1) = nms"
                using nm1 by (simp only: resetValues_names)
              have outs: "\<forall>b \<in> set (out @ [rcs1]). map rc_name b = nms"
                using nm1 Cons.prems(3) by simp
              show ?thesis
                using Cons.IH [OF run nm2 outs] .
            next
              case False
              have run: "emitGroups E ps stop entries rcs1 n1 (Suc polls) out = (r, out1)"
                using Cons.prems(1) e ns \<open>unmarshalKey key [] = Inr vals\<close> len1 len2 Inr pr False
                by (simp add: Let_def)
              show ?thesis
                using Cons.IH [OF run nm1 Cons.prems(3)] .
            qed
          qed
        qed
      qed
    qed
  qed
qed

lemma foldl_appendResultColumnWithName:
  "map rc_name (foldl appendResultColumnWithName rcs nms) = map rc_name rcs @ nms"
  by (induction nms arbitrary: rcs) (simp_all add: appendResultColumnWithName_def)

text \<open>
  C6. Every block that \<^verbatim>\<open>flush\<close> passes to \<^verbatim>\<open>ppBase.writeBlock\<close> has exactly
  \<^verbatim>\<open>len(byFields) + len(funcs)\<close> columns: first one column per by-field, named after it, in
  order, then one column per stats function, named by its \<^verbatim>\<open>resultName\<close>, in order.
\<close>

theorem flush_blocks_schema:
  "\<forall>b \<in> set (snd (flush E S psp)).
     map rc_name b = map name (byFields (psp_ps psp)) @ map resultName (funcs (psp_ps psp))
     \<and> length b = length (byFields (psp_ps psp)) + length (funcs (psp_ps psp))"
proof -
  let ?nms = "map name (byFields (psp_ps psp)) @ map resultName (funcs (psp_ps psp))"
  let ?rcs = "foldl appendResultColumnWithName
                (foldl appendResultColumnWithName [] (map name (byFields (psp_ps psp))))
                (map resultName (funcs (psp_ps psp)))"
  have rcs: "map rc_name ?rcs = ?nms"
    by (simp add: foldl_appendResultColumnWithName)
  have names: "\<forall>b \<in> set (snd (flush E S psp)). map rc_name b = ?nms"
  proof (cases "globalBudget psp \<le>s 0")
    case True
    then show ?thesis
      by (simp add: flush_def split: sum.splits)
  next
    case False
    note pos = this
    show ?thesis
    proof (cases "mergeStates E S psp")
      case (Done acc)
      obtain m polls where acc: "acc = (m, polls)"
        by (cases acc)
      obtain r out where run:
        "emitGroups E (psp_ps psp) (needStop S) (go_range (rangeSeed S (length (shards psp) - 1)) m)
           ?rcs 0 polls [] = (r, out)"
        by (cases "emitGroups E (psp_ps psp) (needStop S)
                     (go_range (rangeSeed S (length (shards psp) - 1)) m) ?rcs 0 polls []")
      have inv: "(\<forall>b \<in> set out. map rc_name b = ?nms) \<and> (\<forall>rcs1. r = Done rcs1 \<longrightarrow> map rc_name rcs1 = ?nms)"
        using emitGroups_names [OF run rcs] by simp
      show ?thesis
        using pos Done acc run inv
        by (cases r) (simp_all add: flush_def Let_def)
    next
      case Stop
      with pos show ?thesis by (simp add: flush_def)
    next
      case (Panicked p)
      with pos show ?thesis by (simp add: flush_def)
    qed
  qed
  show ?thesis
  proof
    fix b
    assume "b \<in> set (snd (flush E S psp))"
    with names have nb: "map rc_name b = ?nms"
      by blast
    have "length (map rc_name b) = length ?nms"
      using nb by simp
    then have "length b = length (byFields (psp_ps psp)) + length (funcs (psp_ps psp))"
      by simp
    with nb show "map rc_name b = ?nms
        \<and> length b = length (byFields (psp_ps psp)) + length (funcs (psp_ps psp))"
      by blast
  qed
qed

lemma ex_run_by_host:
  "writeBlocks ex_env (newPipeProcessor ex_plan_by 2 (2 ^ 30)) [(0, ex_block3), (1, ex_block3)]
     = Inr ex_psp_by_host"
  by code_simp

lemma ex_flush_by_host:
  "flush ex_env ex_schedule ex_psp_by_host
     = (ReturnNil, [[\<lparr>rc_name = ''host'', rc_values = [''a'', ''b'']\<rparr>,
                    \<lparr>rc_name = ''n'', rc_values = [''4'', ''2'']\<rparr>]])"
  by code_simp

theorem flush_blocks_schema_witness:
  "[\<lparr>rc_name = ''host'', rc_values = [''a'', ''b'']\<rparr>, \<lparr>rc_name = ''n'', rc_values = [''4'', ''2'']\<rparr>]
     \<in> set (snd (flush ex_env ex_schedule ex_psp_by_host))
   \<and> map rc_name [\<lparr>rc_name = ''host'', rc_values = [''a'', ''b'']\<rparr>, \<lparr>rc_name = ''n'', rc_values = [''4'', ''2'']\<rparr>]
       = map name (byFields (psp_ps ex_psp_by_host)) @ map resultName (funcs (psp_ps ex_psp_by_host))
   \<and> length [\<lparr>rc_name = ''host'', rc_values = [''a'', ''b'']\<rparr>, \<lparr>rc_name = ''n'', rc_values = [''4'', ''2'']\<rparr>]
       = length (byFields (psp_ps ex_psp_by_host)) + length (funcs (psp_ps ex_psp_by_host))"
proof -
  have mem: "[\<lparr>rc_name = ''host'', rc_values = [''a'', ''b'']\<rparr>, \<lparr>rc_name = ''n'', rc_values = [''4'', ''2'']\<rparr>]
     \<in> set (snd (flush ex_env ex_schedule ex_psp_by_host))"
    by (simp add: ex_flush_by_host)
  from flush_blocks_schema [of ex_env ex_schedule ex_psp_by_host] mem show ?thesis
    by blast
qed

subsection \<open>\<^verbatim>\<open>flush\<close> without by-fields and without rows\<close>

text \<open>
  C1. The claim fails on the code for a processor with a single shard: the special case
  for zero matching rows reads \<^verbatim>\<open>shards[0]\<close> after \<^verbatim>\<open>shards = shards[1:]\<close>, which is out of
  range when there is one worker. With no by-fields, a positive global budget and an
  empty map in the only shard, \<^verbatim>\<open>flush\<close> panics and writes no block.
\<close>

theorem flush_single_shard_no_rows_panics:
  assumes "byFields (psp_ps psp) = []" and "\<not> globalBudget psp \<le>s 0"
    and "shards psp = [shard]" and "shard_m shard = []"
  shows "flush E S psp = (FlushPanic IndexOutOfRange, [])"
  using assms by (simp add: flush_def mergeStates_def)

theorem flush_single_shard_no_rows_panics_witness:
  "byFields (psp_ps (newPipeProcessor ex_plan 1 (2 ^ 30) :: (int, ex_func, unit, ex_state) pipeStatsProcessor)) = []
   \<and> \<not> globalBudget (newPipeProcessor ex_plan 1 (2 ^ 30) :: (int, ex_func, unit, ex_state) pipeStatsProcessor) \<le>s 0
   \<and> shards (newPipeProcessor ex_plan 1 (2 ^ 30) :: (int, ex_func, unit, ex_state) pipeStatsProcessor) = [newShard]
   \<and> shard_m (newShard :: ex_state pipeStatsProcessorShard) = []
   \<and> flush ex_env ex_schedule (newPipeProcessor ex_plan 1 (2 ^ 30)) = (FlushPanic IndexOutOfRange, [])"
proof -
  have a: "byFields (psp_ps (newPipeProcessor ex_plan 1 (2 ^ 30) :: (int, ex_func, unit, ex_state) pipeStatsProcessor)) = []"
    by (simp add: newPipeProcessor_def ex_plan_def Let_def)
  have b: "\<not> globalBudget (newPipeProcessor ex_plan 1 (2 ^ 30) :: (int, ex_func, unit, ex_state) pipeStatsProcessor) \<le>s 0"
    by (simp add: newPipeProcessor_def Let_def stateSizeBudgetChunk_def word_sle_eq)
  have c: "shards (newPipeProcessor ex_plan 1 (2 ^ 30) :: (int, ex_func, unit, ex_state) pipeStatsProcessor) = [newShard]"
    by (simp add: newPipeProcessor_def Let_def)
  have d: "shard_m (newShard :: ex_state pipeStatsProcessorShard) = []"
    by (simp add: newShard_def)
  from flush_single_shard_no_rows_panics [OF a b c d, of ex_env ex_schedule] a b c d show ?thesis
    by blast
qed

lemma mergeShards_empty_maps:
  "\<forall>shard \<in> set rest. shard_m shard = [] \<Longrightarrow> mergeShards E S rest i acc = Done acc"
proof (induction rest arbitrary: i)
  case Nil
  show ?case by simp
next
  case (Cons shard rest)
  have e: "shard_m shard = []"
    using Cons.prems by simp
  have one: "mergeShardMap E (needStop S) (go_range (rangeSeed S i) (shard_m shard)) acc = Done acc"
    unfolding e by simp
  have "mergeShards E S rest (Suc i) acc = Done acc"
    using Cons.IH Cons.prems by simp
  then show ?case
    by (simp add: one)
qed

text \<open>
  With at least two shards the special case does what the claim says: when no shard holds
  a group and the plan has no by-fields, the map that \<^verbatim>\<open>flush\<close> writes out holds exactly
  one group, under the empty key, made of new aggregator instances (created in the second
  shard).
\<close>

lemma mergeStates_no_rows_two_shards:
  assumes "byFields (psp_ps psp) = []" and "shards psp = shard0 # shard1 # rest"
    and "\<forall>shard \<in> set (shards psp). shard_m shard = []"
  shows "mergeStates E S psp
     = Done ([([], \<lparr>sfps = fst (newStatsProcessors E (funcs (psp_ps psp)) ([], stateSizeBudget shard1))\<rparr>)], 0)"
proof -
  have e0: "shard_m shard0 = []" and e1: "shard_m shard1 = []"
    using assms(2,3) by simp_all
  have "\<forall>shard \<in> set (shard1 # rest). shard_m shard = []"
    using assms(2,3) by simp
  then have m: "mergeShards E S (shard1 # rest) 0 ([], 0) = Done ([], 0)"
    by (rule mergeShards_empty_maps)
  obtain sps budget where n: "newStatsProcessors E (funcs (psp_ps psp)) ([], stateSizeBudget shard1) = (sps, budget)"
    by (cases "newStatsProcessors E (funcs (psp_ps psp)) ([], stateSizeBudget shard1)")
  have g: "shard_m (getPipeStatsGroup E (psp_ps psp) shard1 []) = [([], \<lparr>sfps = sps\<rparr>)]"
    by (simp add: getPipeStatsGroup_def e1 n)
  have "mergeStates E S psp = Done (shard_m (getPipeStatsGroup E (psp_ps psp) shard1 []), 0)"
    unfolding mergeStates_def assms(2) list.case e0 m using assms(1) by simp
  then show ?thesis
    by (simp add: g n)
qed

text \<open>
  With two shards the same plan and the same empty input give the row that the claim
  describes: the group is created in the second shard and \<^verbatim>\<open>count(*)\<close> is finalized to 0.
\<close>

lemma ex_flush_two_shards_no_rows:
  "flush ex_env ex_schedule (newPipeProcessor ex_plan 2 (2 ^ 30))
     = (ReturnNil, [[\<lparr>rc_name = ''n'', rc_values = [''0'']\<rparr>]])"
  by code_simp

subsection \<open>The order of a \<^verbatim>\<open>range\<close> over a map\<close>

text \<open>Every order of the entries of a map is the order that some seed gives.\<close>

lemma go_range_Cons:
  "i < length xs \<Longrightarrow> go_range (i # seed) xs = (xs ! i) # go_range seed (take i xs @ drop (Suc i) xs)"
  by (cases xs) (simp_all add: Let_def del: take_Suc_Cons drop_Suc_Cons nth_Cons_Suc)

lemma go_range_any_order:
  "mset ys = mset xs \<Longrightarrow> \<exists>seed. go_range seed xs = ys"
proof (induction ys arbitrary: xs)
  case Nil
  then have "xs = []"
    by simp
  then show ?case
    by simp
next
  case (Cons y ys)
  then have "y \<in> set xs"
    by (metis list.set_intros(1) set_mset_mset)
  then obtain i where i: "i < length xs" and y: "xs ! i = y"
    by (auto simp add: in_set_conv_nth)
  let ?xs' = "take i xs @ drop (Suc i) xs"
  have "xs = take i xs @ y # drop (Suc i) xs"
    using i y id_take_nth_drop by fastforce
  then have "mset xs = add_mset y (mset ?xs')"
    by (metis mset.simps(2) mset_append union_mset_add_mset_right)
  with Cons.prems have "mset ys = mset ?xs'"
    by simp
  from Cons.IH [OF this] obtain seed where "go_range seed ?xs' = ys"
    by blast
  then have "go_range (i # seed) xs = y # ys"
    using i y by (simp add: go_range_Cons)
  then show ?case
    by blast
qed

subsection \<open>Group keys are decoded to the values they were built from\<close>

lemma wfKey_unmarshalKey:
  "wfKey n key \<Longrightarrow> \<exists>vs. length vs = n \<and> key = foldl MarshalBytes [] vs \<and> unmarshalKey key [] = Inr vs"
  by (auto simp add: wfKey_def unmarshalKey_roundtrip)

lemma wfKey_Nil: "wfKey 0 []"
  by (simp add: wfKey_def)

lemma wfKey_single: "wfKey (Suc 0) (MarshalBytes [] v)"
proof -
  have "length [v] = Suc 0 \<and> MarshalBytes [] v = foldl MarshalBytes [] [v]"
    by simp
  then show ?thesis
    unfolding wfKey_def by blast
qed

lemma marshalRow_foldl:
  "marshalRow cvs i kbuf = Inr kb \<Longrightarrow> kb = foldl MarshalBytes kbuf (map (\<lambda>vals. vals ! i) cvs)"
  by (induction cvs i kbuf rule: marshalRow.induct) (auto split: if_splits)

lemma marshalRow_wfKey: "marshalRow cvs i [] = Inr kb \<Longrightarrow> wfKey (length cvs) kb"
proof -
  assume "marshalRow cvs i [] = Inr kb"
  then have "kb = foldl MarshalBytes [] (map (\<lambda>vals. vals ! i) cvs)"
    by (rule marshalRow_foldl)
  moreover have "length (map (\<lambda>vals. vals ! i) cvs) = length cvs"
    by simp
  ultimately show ?thesis
    unfolding wfKey_def by blast
qed

lemma keysOk_Nil: "keysOk n []"
  by (simp add: keysOk_def)

lemma keysOk_update: "keysOk n m \<Longrightarrow> wfKey n key \<Longrightarrow> keysOk n (AList.update key g m)"
  by (auto simp add: keysOk_def AList.dom_update)

lemma keysOk_update_present: 
  "keysOk n m \<Longrightarrow> map_of m key = Some g0 \<Longrightarrow> keysOk n (AList.update key g m)"
proof -
  assume ok: "keysOk n m" and "map_of m key = Some g0"
  then have "(key, g0) \<in> set m"
    by (simp add: map_of_SomeD)
  then have "key \<in> fst ` set m"
    by force
  with ok have "wfKey n key"
    by (auto simp add: keysOk_def)
  with ok show ?thesis
    by (rule keysOk_update)
qed

lemma getPipeStatsGroup_keysOk:
  "keysOk n (shard_m shard) \<Longrightarrow> wfKey n key \<Longrightarrow> keysOk n (shard_m (getPipeStatsGroup E ps shard key))"
  by (simp add: getPipeStatsGroup_def Let_def keysOk_update split: option.splits prod.splits)

lemma updateGroupForAllRows_keysOk:
  "updateGroupForAllRows E shard key brs = Inr shard1 \<Longrightarrow> keysOk n (shard_m shard)
     \<Longrightarrow> keysOk n (shard_m shard1)"
  by (auto simp add: updateGroupForAllRows_def keysOk_update_present split: option.splits sum.splits)

lemma updateGroupForRow_keysOk:
  "updateGroupForRow E shard key brs i = Inr shard1 \<Longrightarrow> keysOk n (shard_m shard)
     \<Longrightarrow> keysOk n (shard_m shard1)"
  by (auto simp add: updateGroupForRow_def keysOk_update_present split: option.splits sum.splits)

lemma writeBlock_rows1_keysOk:
  "writeBlock_rows1 E ps brs vals idxs (shard, kbuf) = Inr (shard1, kbuf1)
     \<Longrightarrow> keysOk (Suc 0) (shard_m shard) \<Longrightarrow> keysOk (Suc 0) (shard_m shard1)"
proof (induction idxs arbitrary: shard kbuf)
  case Nil
  then show ?case by simp
next
  case (Cons i idxs)
  from Cons.prems(1) have inb: "\<not> length vals \<le> i"
    by (auto split: if_splits)
  obtain sh1 kb1 where step:
    "(if i \<le> 0 \<or> vals ! (i - 1) \<noteq> vals ! i
      then (let kb = MarshalBytes [] (vals ! i) in (getPipeStatsGroup E ps shard kb, kb))
      else (shard, kbuf)) = (sh1, kb1)"
    by (cases "(if i \<le> 0 \<or> vals ! (i - 1) \<noteq> vals ! i
      then (let kb = MarshalBytes [] (vals ! i) in (getPipeStatsGroup E ps shard kb, kb))
      else (shard, kbuf))")
  have ok1: "keysOk (Suc 0) (shard_m sh1)"
    using step Cons.prems(2)
    by (auto simp add: Let_def getPipeStatsGroup_keysOk wfKey_single split: if_splits)
  from Cons.prems(1) inb step obtain sh2 where
    upd: "updateGroupForRow E sh1 kb1 brs i = Inr sh2" and
    rest: "writeBlock_rows1 E ps brs vals idxs (sh2, kb1) = Inr (shard1, kbuf1)"
    by (auto split: sum.splits)
  have ok2: "keysOk (Suc 0) (shard_m sh2)"
    using updateGroupForRow_keysOk [OF upd ok1] .
  show ?case
    using Cons.IH [OF rest ok2] .
qed

lemma writeBlock_rowsN_keysOk:
  "writeBlock_rowsN E ps brs cvs idxs (shard, kbuf) = Inr (shard1, kbuf1)
     \<Longrightarrow> keysOk (length cvs) (shard_m shard) \<Longrightarrow> keysOk (length cvs) (shard_m shard1)"
proof (induction idxs arbitrary: shard kbuf)
  case Nil
  then show ?case by simp
next
  case (Cons i idxs)
  from Cons.prems(1) obtain same where same: "sameValue_loop cvs i = Inr same"
    by (auto split: sum.splits)
  from Cons.prems(1) same obtain sh1 kb1 where step:
    "(if \<not> same
      then (case marshalRow cvs i [] of
              Inl p \<Rightarrow> Inl p
            | Inr kb \<Rightarrow> Inr (getPipeStatsGroup E ps shard kb, kb))
      else Inr (shard, kbuf)) = Inr (sh1, kb1)"
    by (auto split: sum.splits)
  have ok1: "keysOk (length cvs) (shard_m sh1)"
    using step Cons.prems(2)
    by (auto simp add: getPipeStatsGroup_keysOk marshalRow_wfKey split: if_splits sum.splits)
  from Cons.prems(1) same step obtain sh2 where
    upd: "updateGroupForRow E sh1 kb1 brs i = Inr sh2" and
    rest: "writeBlock_rowsN E ps brs cvs idxs (sh2, kb1) = Inr (shard1, kbuf1)"
    by (auto split: sum.splits)
  have ok2: "keysOk (length cvs) (shard_m sh2)"
    using updateGroupForRow_keysOk [OF upd ok1] .
  show ?case
    using Cons.IH [OF rest ok2] .
qed

lemma shard_writeBlock_keysOk:
  assumes "shard_writeBlock E ps shard br = Inr shard1"
    and "keysOk (length (byFields ps)) (shard_m shard)"
  shows "keysOk (length (byFields ps)) (shard_m shard1)"
proof (cases "byFields ps")
  case Nil
  have "keysOk 0 (shard_m (getPipeStatsGroup E ps shard []))"
    using assms(2) Nil by (simp add: getPipeStatsGroup_keysOk wfKey_Nil)
  then show ?thesis
    using assms(1) Nil
    by (auto simp add: shard_writeBlock_def Let_def dest: updateGroupForAllRows_keysOk)
next
  case (Cons bf rest)
  note bfs = this
  show ?thesis
  proof (cases rest)
    case Nil
    have ok: "keysOk (Suc 0) (shard_m shard)"
      using assms(2) bfs Nil by simp
    have one: "keysOk (Suc 0) (shard_m (getPipeStatsGroup E ps (shard\<lparr>keyBuf := kb\<rparr>) (MarshalBytes [] v)))" for kb v
      using ok by (simp add: getPipeStatsGroup_keysOk wfKey_single)
    have "keysOk (Suc 0) (shard_m shard1)"
      using assms(1) bfs Nil one ok
      by (auto simp add: shard_writeBlock_def Let_def
            split: if_splits list.splits sum.splits
            dest: updateGroupForAllRows_keysOk writeBlock_rows1_keysOk)
    then show ?thesis
      using bfs Nil by simp
  next
    case (Cons bf2 rest2)
    let ?cvs = "map (\<lambda>bf. getValuesBucketed (blk E) (getColumnByName (blk E) br (name bf)) br bf) (byFields ps)"
    have len: "length ?cvs = length (byFields ps)"
      by simp
    have ok: "keysOk (length ?cvs) (shard_m (shard\<lparr>columnValues := ?cvs\<rparr>))"
      using assms(2) by simp
    have many: "keysOk (length ?cvs) (shard_m (getPipeStatsGroup E ps (shard\<lparr>columnValues := ?cvs\<rparr>) kb))"
      if "marshalRow ?cvs 0 [] = Inr kb" for kb
      using ok that by (simp add: getPipeStatsGroup_keysOk marshalRow_wfKey del: length_map)
    have "keysOk (length ?cvs) (shard_m shard1)"
      using assms(1) bfs Cons many ok
      by (auto simp add: shard_writeBlock_def Let_def simp del: length_map
            split: if_splits sum.splits
            dest: updateGroupForAllRows_keysOk writeBlock_rowsN_keysOk)
    then show ?thesis
      by simp
  qed
qed


lemma writeBlock_keysOk:
  assumes "writeBlock E psp workerID br = Inr psp1"
    and "\<forall>shard \<in> set (shards psp). keysOk (length (byFields (psp_ps psp))) (shard_m shard)"
  shows "psp_ps psp1 = psp_ps psp
     \<and> (\<forall>shard \<in> set (shards psp1). keysOk (length (byFields (psp_ps psp))) (shard_m shard))"
proof (cases "rowsLen (blk E) br = 0")
  case True
  with assms show ?thesis
    by (simp add: writeBlock_def)
next
  case False
  note rows = this
  from assms(1) rows have w: "workerID < length (shards psp)"
    by (auto simp add: writeBlock_def split: if_splits)
  let ?n = "length (byFields (psp_ps psp))"
  let ?sh = "shards psp ! workerID"
  have oksh: "keysOk ?n (shard_m ?sh)"
    using assms(2) w by simp
  have upd: "\<forall>shard \<in> set ((shards psp)[workerID := s]). keysOk ?n (shard_m shard)"
    if "keysOk ?n (shard_m s)" for s
  proof
    fix shard
    assume "shard \<in> set ((shards psp)[workerID := s])"
    then have "shard \<in> insert s (set (shards psp))"
      using set_update_subset_insert by fastforce
    with that assms(2) show "keysOk ?n (shard_m shard)"
      by auto
  qed
  show ?thesis
  proof (cases "budgetLoop (stateSizeBudget ?sh) (globalBudget psp)")
    case (Dropped l g c)
    have "keysOk ?n (shard_m (?sh\<lparr>stateSizeBudget := l\<rparr>))"
      using oksh by simp
    from upd [OF this] assms(1) rows w Dropped show ?thesis
      by (auto simp add: writeBlock_def Let_def)
  next
    case (Proceed l g)
    from assms(1) rows w Proceed obtain shard1 where
      sw: "shard_writeBlock E (psp_ps psp) (?sh\<lparr>stateSizeBudget := l\<rparr>) br = Inr shard1" and
      res: "psp1 = psp\<lparr>shards := (shards psp)[workerID := shard1], globalBudget := g\<rparr>"
      by (auto simp add: writeBlock_def Let_def split: sum.splits)
    have "keysOk ?n (shard_m (?sh\<lparr>stateSizeBudget := l\<rparr>))"
      using oksh by simp
    from shard_writeBlock_keysOk [OF sw this] have "keysOk ?n (shard_m shard1)" .
    from upd [OF this] res show ?thesis
      by simp
  qed
qed

lemma writeBlocks_keysOk:
  "writeBlocks E psp calls = Inr psp1
     \<Longrightarrow> \<forall>shard \<in> set (shards psp). keysOk (length (byFields (psp_ps psp))) (shard_m shard)
     \<Longrightarrow> psp_ps psp1 = psp_ps psp
         \<and> (\<forall>shard \<in> set (shards psp1). keysOk (length (byFields (psp_ps psp))) (shard_m shard))"
proof (induction calls arbitrary: psp)
  case Nil
  then show ?case by simp
next
  case (Cons call calls)
  obtain workerID br where call: "call = (workerID, br)"
    by (cases call)
  from Cons.prems(1) call obtain psp2 where
    one: "writeBlock E psp workerID br = Inr psp2" and
    rest: "writeBlocks E psp2 calls = Inr psp1"
    by (auto split: sum.splits)
  from writeBlock_keysOk [OF one Cons.prems(2)] have
    ps2: "psp_ps psp2 = psp_ps psp" and
    ok2: "\<forall>shard \<in> set (shards psp2). keysOk (length (byFields (psp_ps psp2))) (shard_m shard)"
    by simp_all
  from Cons.IH [OF rest ok2] ps2 show ?case
    by simp
qed

lemma newPipeProcessor_keysOk:
  "psp_ps (newPipeProcessor ps workersCount allowed) = ps
   \<and> (\<forall>shard \<in> set (shards (newPipeProcessor ps workersCount allowed)). keysOk n (shard_m shard))"
  by (simp add: newPipeProcessor_def Let_def newShard_def keysOk_Nil)

lemma set_go_range: "set (go_range seed xs) = set xs"
proof (induction seed xs rule: go_range.induct)
  case (1 seed)
  show ?case by simp
next
  case (2 x xs)
  show ?case by simp
next
  case (3 s seed x xs)
  let ?l = "x # xs"
  let ?i = "s mod length ?l"
  have i: "?i < length ?l"
    by simp
  have IH: "set (go_range seed (take ?i ?l @ drop (Suc ?i) ?l)) = set (take ?i ?l @ drop (Suc ?i) ?l)"
    using 3 by simp
  have "?l = take ?i ?l @ (?l ! ?i) # drop (Suc ?i) ?l"
    using i by (rule id_take_nth_drop)
  then have "set ?l = insert (?l ! ?i) (set (take ?i ?l @ drop (Suc ?i) ?l))"
    by (metis Un_insert_right list.simps(15) set_append)
  with IH show ?case
    by (simp add: Let_def del: take_Suc_Cons drop_Suc_Cons nth_Cons_Suc)
qed

lemma mergeShardMap_keysOk:
  "mergeShardMap E stop entries (m, polls) = Done (m1, polls1)
     \<Longrightarrow> keysOk n m \<Longrightarrow> keysOk n entries \<Longrightarrow> keysOk n m1"
proof (induction entries arbitrary: m polls)
  case Nil
  then show ?case by simp
next
  case (Cons e entries)
  obtain key psg where e: "e = (key, psg)"
    by (cases e)
  have wk: "wfKey n key" and oke: "keysOk n entries"
    using Cons.prems(3) e by (simp_all add: keysOk_def)
  from Cons.prems(1) e obtain g where
    rest: "mergeShardMap E stop entries (AList.update key g m, Suc polls) = Done (m1, polls1)"
    by (auto split: if_splits option.splits sum.splits)
  have "keysOk n (AList.update key g m)"
    using Cons.prems(2) wk by (rule keysOk_update)
  from Cons.IH [OF rest this oke] show ?case .
qed

lemma mergeShards_keysOk:
  "mergeShards E S rest i (m, polls) = Done (m1, polls1)
     \<Longrightarrow> keysOk n m \<Longrightarrow> \<forall>shard \<in> set rest. keysOk n (shard_m shard) \<Longrightarrow> keysOk n m1"
proof (induction rest arbitrary: i m polls)
  case Nil
  then show ?case by simp
next
  case (Cons shard rest)
  from Cons.prems(1) obtain m2 polls2 where
    one: "mergeShardMap E (needStop S) (go_range (rangeSeed S i) (shard_m shard)) (m, polls) = Done (m2, polls2)" and
    more: "mergeShards E S rest (Suc i) (m2, polls2) = Done (m1, polls1)"
    by (auto split: loop_result.splits)
  have "keysOk n (go_range (rangeSeed S i) (shard_m shard))"
    using Cons.prems(3) by (simp add: keysOk_def set_go_range)
  from mergeShardMap_keysOk [OF one Cons.prems(2) this] have ok2: "keysOk n m2" .
  from Cons.IH [OF more ok2] Cons.prems(3) show ?case
    by simp
qed

lemma mergeStates_keysOk:
  assumes "mergeStates E S psp = Done (m, polls)"
    and "\<forall>shard \<in> set (shards psp). keysOk (length (byFields (psp_ps psp))) (shard_m shard)"
  shows "keysOk (length (byFields (psp_ps psp))) m"
proof -
  let ?n = "length (byFields (psp_ps psp))"
  from assms(1) obtain shard0 rest where sh: "shards psp = shard0 # rest"
    by (cases "shards psp") (simp_all add: mergeStates_def)
  from assms(1) sh obtain m0 polls0 where
    mg: "mergeShards E S rest 0 (shard_m shard0, 0) = Done (m0, polls0)"
    by (auto simp add: mergeStates_def split: loop_result.splits)
  have ok0: "keysOk ?n m0"
    using mergeShards_keysOk [OF mg] assms(2) sh by simp
  show ?thesis
  proof (cases "?n = 0 \<and> length m0 = 0")
    case True
    from assms(1) sh mg True obtain shard1 where
      m: "m = shard_m (getPipeStatsGroup E (psp_ps psp) shard1 [])" and "shard1 \<in> set rest"
      by (auto simp add: mergeStates_def split: list.splits)
    then have "keysOk ?n (shard_m shard1)"
      using assms(2) sh by simp
    then show ?thesis
      using m True by (simp add: getPipeStatsGroup_keysOk wfKey_Nil)
  next
    case False
    with assms(1) sh mg have "m = m0"
      by (auto simp add: mergeStates_def)
    with ok0 show ?thesis
      by simp
  qed
qed

text \<open>
  C5. For every run of \<^verbatim>\<open>writeBlock\<close> calls on a new processor, every key of the map
  that the last loop of \<^verbatim>\<open>flush\<close> ranges over is the concatenation of the
  \<^verbatim>\<open>MarshalBytes\<close> encodings of exactly \<^verbatim>\<open>len(byFields)\<close> values, and the decoding loop of
  \<^verbatim>\<open>flush\<close> returns exactly these values from it.
\<close>

theorem merged_keys_roundtrip:
  assumes "writeBlocks E (newPipeProcessor ps workersCount allowed) calls = Inr psp"
    and "mergeStates E S psp = Done (m, polls)"
  shows "\<forall>key \<in> fst ` set m.
           \<exists>vs. length vs = length (byFields ps) \<and> key = foldl MarshalBytes [] vs
                \<and> unmarshalKey key [] = Inr vs"
proof -
  let ?n = "length (byFields ps)"
  from assms(1) obtain p0 where
    run: "writeBlocks E p0 calls = Inr psp" and
    p0: "p0 = newPipeProcessor ps workersCount allowed"
    by blast
  have new: "psp_ps p0 = ps \<and> (\<forall>shard \<in> set (shards p0). keysOk ?n (shard_m shard))"
    unfolding p0 by (rule newPipeProcessor_keysOk)
  then have init: "\<forall>shard \<in> set (shards p0). keysOk (length (byFields (psp_ps p0))) (shard_m shard)"
    by simp
  from writeBlocks_keysOk [OF run init] new have
    ps: "psp_ps psp = ps" and
    ok: "\<forall>shard \<in> set (shards psp). keysOk ?n (shard_m shard)"
    by simp_all
  have "keysOk ?n m"
    using mergeStates_keysOk [OF assms(2)] ok ps by simp
  then show ?thesis
    by (auto simp add: keysOk_def dest: wfKey_unmarshalKey)
qed

lemma ex_mergeStates_by_host:
  "mergeStates ex_env ex_schedule ex_psp_by_host
     = Done ([([CHR 0x01, CHR ''a''], \<lparr>sfps = [CountState 4]\<rparr>),
              ([CHR 0x01, CHR ''b''], \<lparr>sfps = [CountState 2]\<rparr>)], 2)"
  by code_simp

theorem merged_keys_roundtrip_witness:
  "writeBlocks ex_env (newPipeProcessor ex_plan_by 2 (2 ^ 30)) [(0, ex_block3), (1, ex_block3)]
     = Inr ex_psp_by_host
   \<and> mergeStates ex_env ex_schedule ex_psp_by_host
     = Done ([([CHR 0x01, CHR ''a''], \<lparr>sfps = [CountState 4]\<rparr>),
              ([CHR 0x01, CHR ''b''], \<lparr>sfps = [CountState 2]\<rparr>)], 2)
   \<and> (\<exists>vs. length vs = length (byFields ex_plan_by) \<and> [CHR 0x01, CHR ''a''] = foldl MarshalBytes [] vs
           \<and> unmarshalKey [CHR 0x01, CHR ''a''] [] = Inr vs)
   \<and> (\<exists>vs. length vs = length (byFields ex_plan_by) \<and> [CHR 0x01, CHR ''b''] = foldl MarshalBytes [] vs
           \<and> unmarshalKey [CHR 0x01, CHR ''b''] [] = Inr vs)"
  using merged_keys_roundtrip [OF ex_run_by_host ex_mergeStates_by_host] ex_run_by_host ex_mergeStates_by_host
  by simp

subsection \<open>The parser\<close>

lemma parsePipeStats_loop_funcs:
  assumes "parsePipeStats_loop P bfs lx fns = Some y"
  shows "\<forall>ps lx1. y = Inr (ps, lx1) \<longrightarrow> funcs ps \<noteq> [] \<and> byFields ps = bfs"
proof -
  have "(\<lambda>args y. \<forall>ps lx1. y = Inr (ps, lx1) \<longrightarrow> funcs ps \<noteq> [] \<and> byFields ps = snd (fst (fst args)))
          (((P, bfs), lx), fns) y"
    by (rule parsePipeStats_loop.raw_induct [OF _ assms])
       (auto split: sum.splits prod.splits if_splits)
  then show ?thesis
    by simp
qed

text \<open>
  C8, as the code has it. The parser never compares result names: the pipe
  \<^verbatim>\<open>stats count() as x, count() as x\<close> is parsed into a plan with two functions named \<open>x\<close>.
\<close>

theorem parsePipeStats_duplicate_resultName:
  "parsePipeStats ex_parse_env
     [''stats'', ''count'', ''('', '')'', ''as'', ''x'', '','', ''count'', ''('', '')'', ''as'', ''x'']
     = Some (Inr (\<lparr>byFields = [],
                   funcs = [\<lparr>sfunc = CountAll, neededFieldsForFunc = [], iff = None, resultName = ''x''\<rparr>,
                            \<lparr>sfunc = CountAll, neededFieldsForFunc = [], iff = None, resultName = ''x''\<rparr>]\<rparr>, []))
   \<and> \<not> distinct (map resultName
          [\<lparr>sfunc = CountAll, neededFieldsForFunc = [], iff = (None :: unit option), resultName = ''x''\<rparr>,
           \<lparr>sfunc = CountAll, neededFieldsForFunc = [], iff = None, resultName = ''x''\<rparr>])"
proof -
  have "parsePipeStats ex_parse_env
     [''stats'', ''count'', ''('', '')'', ''as'', ''x'', '','', ''count'', ''('', '')'', ''as'', ''x'']
     = Some (Inr (\<lparr>byFields = [],
                   funcs = [\<lparr>sfunc = CountAll, neededFieldsForFunc = [], iff = None, resultName = ''x''\<rparr>,
                            \<lparr>sfunc = CountAll, neededFieldsForFunc = [], iff = None, resultName = ''x''\<rparr>]\<rparr>, []))"
    by code_simp
  then show ?thesis
    by simp
qed

text \<open>
  C8, amended. Every plan produced by a successful parse contains at least one stats
  function. (Nothing is promised about the result names: the parser accepts equal ones.)
\<close>

theorem parsePipeStats_at_least_one_func:
  "parsePipeStats P lx = Some (Inr (ps, lx1)) \<Longrightarrow> funcs ps \<noteq> []"
proof -
  assume a: "parsePipeStats P lx = Some (Inr (ps, lx1))"
  then obtain bfs lx2 fns where "parsePipeStats_loop P bfs lx2 fns = Some (Inr (ps, lx1))"
    by (auto simp add: parsePipeStats_def Let_def split: if_splits option.splits sum.splits prod.splits)
  from parsePipeStats_loop_funcs [OF this] show ?thesis
    by simp
qed

theorem parsePipeStats_at_least_one_func_witness:
  "parsePipeStats ex_parse_env
     [''stats'', ''by'', ''('', ''host'', '')'', ''count'', ''('', ''*'', '')'', ''as'', ''n'']
     = Some (Inr (ex_plan_by, []))
   \<and> funcs ex_plan_by \<noteq> []"
proof -
  have run: "parsePipeStats ex_parse_env
     [''stats'', ''by'', ''('', ''host'', '')'', ''count'', ''('', ''*'', '')'', ''as'', ''n'']
     = Some (Inr (ex_plan_by, []))"
    by code_simp
  from parsePipeStats_at_least_one_func [OF run] run show ?thesis
    by blast
qed






end
